theory Spec2Isabelle
  imports Complex_Main "HOL-Library.Word" "HOL-Library.Log_Nat"
begin

unbundle bit_operations_syntax

section \<open>JavaScript values used by the audio helpers\<close>

text \<open>
  Exceptions are values. The audio helpers of \<open>services/geminiService.ts\<close> contain no
  \<open>throw\<close> of their own: every failure is an exception of a platform call
  (\<open>atob\<close>, the \<open>Int16Array\<close> constructor, \<open>createBuffer\<close>, \<open>getChannelData\<close>, the
  \<open>DataView\<close> setters), which rejects the promise returned by \<open>createAudioUrl\<close>.
\<close>

datatype error = RangeError | NotSupportedError | IndexSizeError | InvalidCharacterError

definition andThen :: "error + 'a \<Rightarrow> ('a \<Rightarrow> error + 'b) \<Rightarrow> error + 'b" where
  "andThen r f = (case r of Inl e \<Rightarrow> Inl e | Inr x \<Rightarrow> f x)"

text \<open>
  A JavaScript Number. Finite values are kept as exact rationals. Every Number the encoder
  computes with is read from a \<open>Float32Array\<close> (a binary32 value, 24 significant bits) and
  is multiplied by \<open>0x8000\<close> or \<open>0x7FFF\<close> (at most 15 significant bits); the product has at
  most 39 significant bits and is therefore exact in binary64. Comparison, \<open>Math.min\<close> and
  \<open>Math.max\<close> never round. The decoder divides a 16-bit integer by \<open>32768 = 2^15\<close>, which
  is exact in binary32 as well. So no operation below rounds, and rationals describe the
  computed values exactly.
\<close>

datatype number = Num rat | PosInf | NegInf | NaN

fun Math_min :: "number \<Rightarrow> number \<Rightarrow> number" where
  "Math_min NaN _ = NaN"
| "Math_min _ NaN = NaN"
| "Math_min NegInf _ = NegInf"
| "Math_min _ NegInf = NegInf"
| "Math_min PosInf y = y"
| "Math_min x PosInf = x"
| "Math_min (Num a) (Num b) = Num (min a b)"

fun Math_max :: "number \<Rightarrow> number \<Rightarrow> number" where
  "Math_max NaN _ = NaN"
| "Math_max _ NaN = NaN"
| "Math_max PosInf _ = PosInf"
| "Math_max _ PosInf = PosInf"
| "Math_max NegInf y = y"
| "Math_max x NegInf = x"
| "Math_max (Num a) (Num b) = Num (max a b)"

text \<open>The relational operator \<open><\<close>: false whenever an operand is \<open>NaN\<close>.\<close>

fun lessThan_num :: "number \<Rightarrow> number \<Rightarrow> bool" where
  "lessThan_num NaN _ = False"
| "lessThan_num _ NaN = False"
| "lessThan_num (Num a) (Num b) = (a < b)"
| "lessThan_num NegInf NegInf = False"
| "lessThan_num NegInf _ = True"
| "lessThan_num _ NegInf = False"
| "lessThan_num PosInf _ = False"
| "lessThan_num _ PosInf = True"

text \<open>The operator \<open>*\<close>: an infinity times zero is \<open>NaN\<close>, otherwise the signs multiply.\<close>

fun sign_inf :: "rat \<Rightarrow> number \<Rightarrow> number" where
  "sign_inf r PosInf = (if r = 0 then NaN else if 0 < r then PosInf else NegInf)"
| "sign_inf r NegInf = (if r = 0 then NaN else if 0 < r then NegInf else PosInf)"
| "sign_inf r x = x"

fun times_num :: "number \<Rightarrow> number \<Rightarrow> number" where
  "times_num NaN _ = NaN"
| "times_num _ NaN = NaN"
| "times_num (Num a) (Num b) = Num (a * b)"
| "times_num (Num a) y = sign_inf a y"
| "times_num x (Num b) = sign_inf b x"
| "times_num PosInf y = y"
| "times_num NegInf PosInf = NegInf"
| "times_num NegInf NegInf = PosInf"

text \<open>
  \<open>ToInt16\<close> of ECMAScript, applied by \<open>DataView.setInt16\<close> to its value: a non-finite
  Number becomes 0, a finite one is truncated towards zero and reduced modulo \<open>2^16\<close>.
\<close>

definition truncate_rat :: "rat \<Rightarrow> int" where
  "truncate_rat r = (if r < 0 then - \<lfloor>- r\<rfloor> else \<lfloor>r\<rfloor>)"

fun ToInt16 :: "number \<Rightarrow> 16 word" where
  "ToInt16 (Num r) = word_of_int (truncate_rat r)"
| "ToInt16 _ = 0"

section \<open>ArrayBuffer and DataView\<close>

text \<open>
  An \<open>ArrayBuffer\<close> is its list of bytes; \<open>new ArrayBuffer(n)\<close> is zero-filled. The setters
  of a \<open>DataView\<close> over the whole buffer throw \<open>RangeError\<close> when the access does not fit;
  otherwise they store the value, least significant byte first when \<open>littleEndian\<close> is true.
  \<open>setUint32\<close> and \<open>setUint16\<close> are only called with non-negative integers here; their
  conversion (\<open>ToUint32\<close>, \<open>ToUint16\<close>) is reduction modulo \<open>2^32\<close> and \<open>2^16\<close>.
\<close>

type_synonym bytes = "8 word list"

definition new_ArrayBuffer :: "nat \<Rightarrow> bytes" where
  "new_ArrayBuffer n = replicate n 0"

definition setUint8 :: "bytes \<Rightarrow> nat \<Rightarrow> nat \<Rightarrow> error + bytes" where
  "setUint8 view byteOffset v =
     (if byteOffset + 1 \<le> length view then Inr (view[byteOffset := of_nat v])
      else Inl RangeError)"

definition bytes16 :: "16 word \<Rightarrow> bool \<Rightarrow> bytes" where
  "bytes16 w littleEndian =
     (let be = [ucast (drop_bit 8 w), ucast w] in if littleEndian then rev be else be)"

definition bytes32 :: "32 word \<Rightarrow> bool \<Rightarrow> bytes" where
  "bytes32 w littleEndian =
     (let be = [ucast (drop_bit 24 w), ucast (drop_bit 16 w), ucast (drop_bit 8 w), ucast w]
      in if littleEndian then rev be else be)"

text \<open>The write that the multi-byte setters share: a run of bytes at an offset.\<close>

definition store :: "bytes \<Rightarrow> nat \<Rightarrow> bytes \<Rightarrow> error + bytes" where
  "store view byteOffset bs =
     (if byteOffset + length bs \<le> length view
      then Inr (take byteOffset view @ bs @ drop (byteOffset + length bs) view)
      else Inl RangeError)"

definition setUint16 :: "bytes \<Rightarrow> nat \<Rightarrow> nat \<Rightarrow> bool \<Rightarrow> error + bytes" where
  "setUint16 view byteOffset v littleEndian = store view byteOffset (bytes16 (of_nat v) littleEndian)"

definition setUint32 :: "bytes \<Rightarrow> nat \<Rightarrow> nat \<Rightarrow> bool \<Rightarrow> error + bytes" where
  "setUint32 view byteOffset v littleEndian = store view byteOffset (bytes32 (of_nat v) littleEndian)"

definition setInt16 :: "bytes \<Rightarrow> nat \<Rightarrow> number \<Rightarrow> bool \<Rightarrow> error + bytes" where
  "setInt16 view byteOffset v littleEndian = store view byteOffset (bytes16 (ToInt16 v) littleEndian)"

section \<open>services/geminiService.ts: audio helpers\<close>

text \<open>
  \<open>decode\<close>: \<open>atob\<close> is the browser's base64 decoder and is a parameter here; it throws
  \<open>InvalidCharacterError\<close> or returns the binary string, given as its list of char codes.
  The loop stores \<open>charCodeAt(i)\<close> into a \<open>Uint8Array\<close>, which keeps the code modulo 256.
\<close>

type_synonym atob_fn = "string \<Rightarrow> error + nat list"

definition decode :: "atob_fn \<Rightarrow> string \<Rightarrow> error + bytes" where
  "decode atob base64 = andThen (atob base64) (\<lambda>binaryString. Inr (map of_nat binaryString))"

text \<open>
  \<open>new Int16Array(data.buffer)\<close> views the whole buffer: it throws \<open>RangeError\<close> when the
  byte length is not a multiple of 2 and otherwise reads the elements in the byte order of
  the host, which is little-endian on every platform the browsers run on.
\<close>

fun int16_elements :: "bytes \<Rightarrow> 16 word list" where
  "int16_elements (lo # hi # rest) = (ucast lo OR push_bit 8 (ucast hi)) # int16_elements rest"
| "int16_elements _ = []"

definition new_Int16Array :: "bytes \<Rightarrow> error + 16 word list" where
  "new_Int16Array buffer =
     (if length buffer mod 2 \<noteq> 0 then Inl RangeError else Inr (int16_elements buffer))"

text \<open>
  \<open>BaseAudioContext.createBuffer(numberOfChannels, length, sampleRate)\<close> of the Web Audio
  API throws \<open>NotSupportedError\<close> when an argument is zero (or outside the range the
  implementation supports; the constants 1 and 24000 passed here are inside it
  everywhere) and returns a buffer of zero samples. \<open>getChannelData\<close> throws
  \<open>IndexSizeError\<close> for a channel that does not exist.
\<close>

record AudioBuffer =
  buffer_length :: nat
  buffer_sampleRate :: nat
  buffer_channels :: "number list list"

record AudioContext =
  sampleRate :: nat

definition new_AudioContext :: "nat \<Rightarrow> AudioContext" where
  "new_AudioContext rate = \<lparr>sampleRate = rate\<rparr>"

definition createBuffer :: "AudioContext \<Rightarrow> nat \<Rightarrow> nat \<Rightarrow> nat \<Rightarrow> error + AudioBuffer" where
  "createBuffer ctx numberOfChannels len rate =
     (if numberOfChannels = 0 \<or> len = 0 \<or> rate = 0 then Inl NotSupportedError
      else Inr \<lparr>buffer_length = len, buffer_sampleRate = rate,
                buffer_channels = replicate numberOfChannels (replicate len (Num 0))\<rparr>)"

definition getChannelData :: "AudioBuffer \<Rightarrow> nat \<Rightarrow> error + number list" where
  "getChannelData b channel =
     (if channel < length (buffer_channels b) then Inr (buffer_channels b ! channel)
      else Inl IndexSizeError)"

text \<open>
  \<open>decodeAudioData\<close>: the loop \<open>channelData[i] = dataInt16[i] / 32768.0\<close> runs over every
  index of channel 0 (\<open>frameCount\<close> is the length of both arrays), so it replaces the
  channel by the quotients.
\<close>

definition decodeAudioData :: "bytes \<Rightarrow> AudioContext \<Rightarrow> error + AudioBuffer" where
  "decodeAudioData data ctx =
     andThen (new_Int16Array data) (\<lambda>dataInt16.
       let frameCount = length dataInt16 in
       andThen (createBuffer ctx 1 frameCount 24000) (\<lambda>buffer.
         andThen (getChannelData buffer 0) (\<lambda>channelData.
           Inr (buffer\<lparr>buffer_channels :=
                  (buffer_channels buffer)[0 := map (\<lambda>x. Num (of_int (sint x) / 32768)) dataInt16]\<rparr>))))"

text \<open>\<open>writeString\<close>: one \<open>setUint8\<close> per character, at \<open>offset + i\<close>.\<close>

fun writeString_from :: "bytes \<Rightarrow> nat \<Rightarrow> string \<Rightarrow> nat \<Rightarrow> error + bytes" where
  "writeString_from view offset [] i = Inr view"
| "writeString_from view offset (c # cs) i =
     andThen (setUint8 view (offset + i) (of_char c)) (\<lambda>view. writeString_from view offset cs (i + 1))"

definition writeString :: "bytes \<Rightarrow> nat \<Rightarrow> string \<Rightarrow> error + bytes" where
  "writeString view offset str = writeString_from view offset str 0"

text \<open>
  The sample loop of \<open>createAudioUrl\<close>:
  \<open>for (i = 0; i < channels.length; i++, offset += 2)\<close>. Its body clamps
  \<open>channels[i]\<close> and passes \<open>s < 0 ? s * 0x8000 : s * 0x7FFF\<close> to \<open>setInt16\<close>;
  \<open>scaledSample\<close> names that argument.
\<close>

definition scaledSample :: "number \<Rightarrow> number" where
  "scaledSample c =
     (let s = Math_max (Num (- 1)) (Math_min (Num 1) c) in
      if lessThan_num s (Num 0) then times_num s (Num 32768) else times_num s (Num 32767))"

fun writeSamples :: "bytes \<Rightarrow> nat \<Rightarrow> number list \<Rightarrow> error + bytes" where
  "writeSamples view offset [] = Inr view"
| "writeSamples view offset (c # cs) =
     andThen (setInt16 view offset (scaledSample c) True)
       (\<lambda>view. writeSamples view (offset + 2) cs)"

text \<open>
  \<open>createAudioUrl\<close>. The result is the \<open>Blob\<close> that the returned object URL names
  (its bytes and its type): the URL string itself is an opaque handle.
\<close>

record Blob =
  blob_bytes :: bytes
  blob_type :: string

definition createAudioUrl :: "atob_fn \<Rightarrow> string \<Rightarrow> error + Blob" where
  "createAudioUrl atob base64Audio =
    (let outputAudioContext = new_AudioContext 24000 in
     andThen (decode atob base64Audio) (\<lambda>decodedBytes.
     andThen (decodeAudioData decodedBytes outputAudioContext) (\<lambda>audioBuffer.
     let view = new_ArrayBuffer (44 + buffer_length audioBuffer * 2) in
     andThen (getChannelData audioBuffer 0) (\<lambda>channels.
     let offset = 0 in
     andThen (writeString view offset ''RIFF'') (\<lambda>view. let offset = offset + 4 in
     andThen (setUint32 view offset (36 + length channels * 2) True) (\<lambda>view. let offset = offset + 4 in
     andThen (writeString view offset ''WAVE'') (\<lambda>view. let offset = offset + 4 in
     andThen (writeString view offset ''fmt '') (\<lambda>view. let offset = offset + 4 in
     andThen (setUint32 view offset 16 True) (\<lambda>view. let offset = offset + 4 in
     andThen (setUint16 view offset 1 True) (\<lambda>view. let offset = offset + 2 in
     andThen (setUint16 view offset 1 True) (\<lambda>view. let offset = offset + 2 in
     andThen (setUint32 view offset (sampleRate outputAudioContext) True) (\<lambda>view. let offset = offset + 4 in
     andThen (setUint32 view offset (sampleRate outputAudioContext * 2) True) (\<lambda>view. let offset = offset + 4 in
     andThen (setUint16 view offset 2 True) (\<lambda>view. let offset = offset + 2 in
     andThen (setUint16 view offset 16 True) (\<lambda>view. let offset = offset + 2 in
     andThen (writeString view offset ''data'') (\<lambda>view. let offset = offset + 4 in
     andThen (setUint32 view offset (length channels * 2) True) (\<lambda>view. let offset = offset + 4 in
     andThen (writeSamples view offset channels) (\<lambda>view.
       Inr \<lparr>blob_bytes = view, blob_type = ''audio/wav''\<rparr>))))))))))))))))))"

section \<open>Vocabulary of the encoder's claims\<close>

text \<open>
  The WAV layout as the spec lists it, written with arithmetic instead of the bit
  operations of the model: \<open>ascii\<close> gives the bytes of a tag, \<open>uint16_le\<close> and
  \<open>uint32_le\<close> the little-endian bytes of an unsigned integer, and \<open>spec_wav_header\<close> is
  the 44-byte header for a sample rate and a data size. \<open>read_uint32_le\<close> reads the size
  a header declares.
\<close>

definition ascii :: "string \<Rightarrow> bytes" where
  "ascii str = map (\<lambda>c. of_nat (of_char c)) str"

definition uint16_le :: "nat \<Rightarrow> bytes" where
  "uint16_le v = [of_nat (v mod 256), of_nat (v div 256 mod 256)]"

definition uint32_le :: "nat \<Rightarrow> bytes" where
  "uint32_le v = [of_nat (v mod 256), of_nat (v div 256 mod 256),
                  of_nat (v div 65536 mod 256), of_nat (v div 16777216 mod 256)]"

definition spec_wav_header :: "nat \<Rightarrow> nat \<Rightarrow> bytes" where
  "spec_wav_header rate dataBytes =
     ascii ''RIFF'' @ uint32_le (36 + dataBytes) @ ascii ''WAVE'' @ ascii ''fmt '' @
     uint32_le 16 @ uint16_le 1 @ uint16_le 1 @ uint32_le rate @ uint32_le (rate * 2) @
     uint16_le 2 @ uint16_le 16 @ ascii ''data'' @ uint32_le dataBytes"

definition read_uint32_le :: "bytes \<Rightarrow> nat \<Rightarrow> nat" where
  "read_uint32_le buf off =
     unat (buf ! off) + 256 * unat (buf ! (off + 1)) + 65536 * unat (buf ! (off + 2))
       + 16777216 * unat (buf ! (off + 3))"

text \<open>
  What the pipeline does to one 16-bit sample: \<open>decodeAudioData\<close> divides by 32768 and the
  sample loop multiplies a non-negative value by 32767 and truncates, so a positive sample
  comes back one smaller; zero and negative samples come back unchanged.
\<close>

definition requantized :: "16 word \<Rightarrow> 16 word" where
  "requantized x = (if 0 < sint x then x - 1 else x)"

text \<open>A base64 decoder that answers with a given binary string, for concrete runs.\<close>

definition const_atob :: "nat list \<Rightarrow> atob_fn" where
  "const_atob binaryString base64 = Inr binaryString"

section \<open>types.ts and the source selection of App.tsx\<close>

datatype StreamSource = WEBCAM | VIDEO_LIBRARY | ANIMATION

record VideoAsset =
  video_id :: string
  video_url :: string
  video_prompt :: string
  video_createdAt :: nat

record TalkingAnimationAsset =
  anim_id :: string
  anim_videoUrl :: string
  anim_audioUrl :: string
  anim_imagePrompt :: string
  anim_ttsText :: string
  anim_createdAt :: nat

text \<open>\<open>HistoryItem.type\<close> is a union of string literals; times are milliseconds.\<close>

record HistoryItem =
  hist_id :: string
  hist_type :: string
  hist_description :: string
  hist_timestamp :: nat

text \<open>
  The \<open>useState\<close> cells of \<open>App\<close> that the selection handlers write. The setters called
  within one handler are batched: the next render sees all of them.
\<close>

record AppState =
  streamSource :: StreamSource
  currentVideoUrl :: "string option"
  currentAudioUrl :: "string option"
  history :: "HistoryItem list"

text \<open>The decimal digits of a number, for the template \<open>`hist-${Date.now()}`\<close>.\<close>

fun decimal :: "nat \<Rightarrow> string" where
  "decimal n =
     (if n < 10 then [char_of (48 + n)] else decimal (n div 10) @ [char_of (48 + n mod 10)])"

declare decimal.simps [simp del]

text \<open>
  \<open>addHistoryItem\<close> reads the clock twice: \<open>now\<close> is the value of \<open>Date.now()\<close> in the id
  and \<open>date\<close> the time of \<open>new Date()\<close> in the timestamp.
\<close>

definition addHistoryItem :: "string \<Rightarrow> string \<Rightarrow> nat \<Rightarrow> nat \<Rightarrow> AppState \<Rightarrow> AppState" where
  "addHistoryItem type description now date s =
     s\<lparr>history := history s @
        [\<lparr>hist_id = ''hist-'' @ decimal now, hist_type = type,
          hist_description = description, hist_timestamp = date\<rparr>]\<rparr>"

definition handleSelectVideo :: "VideoAsset \<Rightarrow> nat \<Rightarrow> nat \<Rightarrow> AppState \<Rightarrow> AppState" where
  "handleSelectVideo video now date s =
     (let s = s\<lparr>currentVideoUrl := Some (video_url video)\<rparr>;
          s = s\<lparr>currentAudioUrl := None\<rparr>;
          s = s\<lparr>streamSource := VIDEO_LIBRARY\<rparr>
      in addHistoryItem ''VIDEO''
           (''Set stream to video: '' @ [CHR 0x22] @ video_prompt video @ [CHR 0x22]) now date s)"

definition handleSelectAnimation :: "TalkingAnimationAsset \<Rightarrow> nat \<Rightarrow> nat \<Rightarrow> AppState \<Rightarrow> AppState" where
  "handleSelectAnimation anim now date s =
     (let s = s\<lparr>currentVideoUrl := Some (anim_videoUrl anim)\<rparr>;
          s = s\<lparr>currentAudioUrl := Some (anim_audioUrl anim)\<rparr>;
          s = s\<lparr>streamSource := ANIMATION\<rparr>
      in addHistoryItem ''ANIMATION''
           (''Set stream to animation: '' @ [CHR 0x22] @ take 30 (anim_ttsText anim) @ ''...''
              @ [CHR 0x22]) now date s)"

text \<open>\<open>setStreamSource\<close>, which \<open>Controls\<close> calls for its three source buttons.\<close>

definition setStreamSource :: "StreamSource \<Rightarrow> AppState \<Rightarrow> AppState" where
  "setStreamSource src s = s\<lparr>streamSource := src\<rparr>"

section \<open>Binary64 subtraction\<close>

text \<open>
  A media position is a finite binary64 value, kept as the rational it denotes. Unlike the
  encoder's products, the difference of two positions need not be a binary64 value:
  \<open>a - v\<close> is the exact difference rounded to the nearest one, ties to the even
  significand. \<open>floor_log2 x\<close> is the exponent \<open>e\<close> with \<open>2^e \<le> x < 2^(e+1)\<close> for \<open>x > 0\<close>;
  a result has 53 significant bits, so it is a multiple of \<open>2^(e-52)\<close>, with the exponent
  not below -1022 (subnormal results), and a rounded magnitude of \<open>2^1024\<close> or more is an
  infinity.
\<close>

definition round_half_even :: "rat \<Rightarrow> int" where
  "round_half_even r =
     (let n = \<lfloor>r\<rfloor>; f = r - of_int n
      in if f < 1 / 2 then n else if 1 / 2 < f then n + 1 else if even n then n else n + 1)"

definition floor_log2 :: "rat \<Rightarrow> int" where
  "floor_log2 x =
     (let k = int (floorlog 2 (nat (fst (quotient_of x)))) - int (floorlog 2 (nat (snd (quotient_of x))))
      in if power_int 2 k \<le> x then k else k - 1)"

definition round_binary64_pos :: "rat \<Rightarrow> number" where
  "round_binary64_pos x =
     (let e = max (floor_log2 x) (- 1022);
          q = power_int 2 (e - 52);
          y = of_int (round_half_even (x / q)) * q
      in if power_int 2 1024 \<le> y then PosInf else Num y)"

fun negate_num :: "number \<Rightarrow> number" where
  "negate_num (Num r) = Num (- r)"
| "negate_num PosInf = NegInf"
| "negate_num NegInf = PosInf"
| "negate_num NaN = NaN"

definition round_binary64 :: "rat \<Rightarrow> number" where
  "round_binary64 x =
     (if x = 0 then Num 0
      else if 0 < x then round_binary64_pos x
      else negate_num (round_binary64_pos (- x)))"

text \<open>The operator \<open>-\<close> on two finite Numbers, and \<open>Math.abs\<close>.\<close>

definition minus_binary64 :: "rat \<Rightarrow> rat \<Rightarrow> number" where
  "minus_binary64 a b = round_binary64 (a - b)"

fun Math_abs :: "number \<Rightarrow> number" where
  "Math_abs (Num r) = Num \<bar>r\<bar>"
| "Math_abs PosInf = PosInf"
| "Math_abs NegInf = PosInf"
| "Math_abs NaN = NaN"

section \<open>App.tsx: StreamPreview\<close>

text \<open>
  The props that the two effects of \<open>StreamPreview\<close> read. A \<open>MediaStream\<close> is an object
  compared by identity: it is its handle.
\<close>

record StreamPreviewProps =
  p_stream :: "nat option"
  p_source :: StreamSource
  p_currentVideoUrl :: "string option"
  p_currentAudioUrl :: "string option"

definition preview_props :: "nat option \<Rightarrow> AppState \<Rightarrow> StreamPreviewProps" where
  "preview_props stream s =
     \<lparr>p_stream = stream, p_source = streamSource s,
      p_currentVideoUrl = currentVideoUrl s, p_currentAudioUrl = currentAudioUrl s\<rparr>"

text \<open>Truthiness of a \<open>string | null\<close>, and \<open>url || ''\<close>.\<close>

definition truthy :: "string option \<Rightarrow> bool" where
  "truthy u = (case u of None \<Rightarrow> False | Some str \<Rightarrow> str \<noteq> [])"

definition or_empty :: "string option \<Rightarrow> string" where
  "or_empty u = (if truthy u then the u else [])"

subsection \<open>Media elements, listeners and promises\<close>

text \<open>
  The three closures that one run of the sync effect creates. A closure is a fresh object
  on every run (the number of the run identifies it) and it captures the audio element
  that \<open>audioRef.current\<close> held during that run (an address in the store of audio elements);
  the video element it captures is the one \<open><video>\<close> node of the component.
\<close>

datatype listener = HandlePlay nat nat | HandlePause nat nat | HandleSeek nat nat

text \<open>
  Media positions are seconds, binary64 values kept as the rationals they denote. Only
  the assignments and calls of the component change an element here; loading, the
  advancing position and the user's controls belong to the browser and are steps of the
  environment below.
\<close>

record HTMLVideoElement =
  v_srcObject :: "nat option"
  v_src :: string
  v_muted :: bool
  v_paused :: bool
  v_currentTime :: rat
  v_listeners :: "(string \<times> listener) list"

record HTMLAudioElement =
  a_src :: string
  a_paused :: bool
  a_currentTime :: rat

text \<open>
  \<open>addEventListener\<close> ignores a callback that is already registered for the type;
  \<open>removeEventListener\<close> removes the registration of exactly that callback.
\<close>

definition addEventListener :: "string \<Rightarrow> listener \<Rightarrow> HTMLVideoElement \<Rightarrow> HTMLVideoElement" where
  "addEventListener type callback el =
     (if (type, callback) \<in> set (v_listeners el) then el
      else el\<lparr>v_listeners := v_listeners el @ [(type, callback)]\<rparr>)"

definition removeEventListener :: "string \<Rightarrow> listener \<Rightarrow> HTMLVideoElement \<Rightarrow> HTMLVideoElement" where
  "removeEventListener type callback el =
     el\<lparr>v_listeners := filter (\<lambda>l. l \<noteq> (type, callback)) (v_listeners el)\<rparr>"

text \<open>
  \<open>play()\<close> returns a promise. Its outcome is decided by the browser and is an input:
  either playback starts (the element is no longer paused and the promise is fulfilled) or
  the call is rejected with a reason and the element stays as it was.
\<close>

datatype play_outcome = Started | Rejected string

datatype promise = Fulfilled | RejectedWith string

definition play_promise :: "play_outcome \<Rightarrow> promise" where
  "play_promise outcome = (case outcome of Started \<Rightarrow> Fulfilled | Rejected e \<Rightarrow> RejectedWith e)"

definition play_paused :: "play_outcome \<Rightarrow> bool \<Rightarrow> bool" where
  "play_paused outcome paused = (case outcome of Started \<Rightarrow> False | Rejected e \<Rightarrow> paused)"

text \<open>
  The component: the video node behind \<open>videoRef\<close> (\<open>None\<close> before the first render), the
  store of audio elements with \<open>audioRef.current\<close> an address in it, the dependencies of
  the last run of each effect, the cleanup that the last run of the sync effect returned
  (the closures it removes and the audio element it captured), the console, and the
  promise rejections that no handler caught.
\<close>

record StreamPreview =
  videoRef :: "HTMLVideoElement option"
  audioRef :: "nat option"
  audioEls :: "nat \<Rightarrow> HTMLAudioElement option"
  nextAudio :: nat
  effectRuns :: nat
  bindingDeps :: "(nat option \<times> StreamSource \<times> string option) option"
  syncDeps :: "(StreamSource \<times> string option) option"
  syncCleanup :: "(nat \<times> nat) option"
  console :: "string list"
  unhandledRejections :: "string list"

definition unmounted :: StreamPreview where
  "unmounted = \<lparr>videoRef = None, audioRef = None, audioEls = (\<lambda>a. None), nextAudio = 0,
     effectRuns = 0, bindingDeps = None, syncDeps = None, syncCleanup = None,
     console = [], unhandledRejections = []\<rparr>"

text \<open>
  \<open>promise.catch(e => console.error(message, e))\<close> as an expression statement: a rejection
  is logged and the promise that \<open>catch\<close> returns is fulfilled. A promise that is still
  rejected when the statement drops it is an unhandled rejection.
\<close>

definition catch_console_error :: "promise \<Rightarrow> string \<Rightarrow> StreamPreview \<Rightarrow> promise \<times> StreamPreview" where
  "catch_console_error p message s =
     (case p of Fulfilled \<Rightarrow> (Fulfilled, s)
      | RejectedWith e \<Rightarrow> (Fulfilled, s\<lparr>console := console s @ [message @ '' '' @ e]\<rparr>))"

definition drop_promise :: "promise \<times> StreamPreview \<Rightarrow> StreamPreview" where
  "drop_promise ps =
     (case fst ps of Fulfilled \<Rightarrow> snd ps
      | RejectedWith e \<Rightarrow> (snd ps)\<lparr>unhandledRejections := unhandledRejections (snd ps) @ [e]\<rparr>)"

text \<open>\<open>videoEl.play().catch(e => console.error(message, e))\<close>.\<close>

definition video_play_catch :: "play_outcome \<Rightarrow> string \<Rightarrow> StreamPreview \<Rightarrow> StreamPreview" where
  "video_play_catch outcome message s =
     (case videoRef s of None \<Rightarrow> s
      | Some videoEl \<Rightarrow>
          drop_promise (catch_console_error (play_promise outcome) message
            (s\<lparr>videoRef := Some (videoEl\<lparr>v_paused := play_paused outcome (v_paused videoEl)\<rparr>)\<rparr>)))"

text \<open>The same for the audio element at an address, and \<open>pause()\<close> and the position.\<close>

definition audio_play_catch :: "nat \<Rightarrow> play_outcome \<Rightarrow> string \<Rightarrow> StreamPreview \<Rightarrow> StreamPreview" where
  "audio_play_catch a outcome message s =
     (case audioEls s a of None \<Rightarrow> s
      | Some audioEl \<Rightarrow>
          drop_promise (catch_console_error (play_promise outcome) message
            (s\<lparr>audioEls := (audioEls s)(a \<mapsto> audioEl\<lparr>a_paused := play_paused outcome (a_paused audioEl)\<rparr>)\<rparr>)))"

definition audio_pause :: "nat \<Rightarrow> StreamPreview \<Rightarrow> StreamPreview" where
  "audio_pause a s =
     (case audioEls s a of None \<Rightarrow> s
      | Some audioEl \<Rightarrow> s\<lparr>audioEls := (audioEls s)(a \<mapsto> audioEl\<lparr>a_paused := True\<rparr>)\<rparr>)"

definition audio_set_currentTime :: "nat \<Rightarrow> rat \<Rightarrow> StreamPreview \<Rightarrow> StreamPreview" where
  "audio_set_currentTime a t s =
     (case audioEls s a of None \<Rightarrow> s
      | Some audioEl \<Rightarrow> s\<lparr>audioEls := (audioEls s)(a \<mapsto> audioEl\<lparr>a_currentTime := t\<rparr>)\<rparr>)"

subsection \<open>The binding effect (lines 50-67)\<close>

definition bindingEffect :: "StreamPreviewProps \<Rightarrow> play_outcome \<Rightarrow> StreamPreview \<Rightarrow> StreamPreview" where
  "bindingEffect p outcome s =
     (case videoRef s of None \<Rightarrow> s
      | Some videoEl \<Rightarrow>
          if p_source p = WEBCAM \<and> p_stream p \<noteq> None then
            let videoEl = videoEl\<lparr>v_srcObject := p_stream p\<rparr>;
                videoEl = videoEl\<lparr>v_src := []\<rparr>;
                videoEl = videoEl\<lparr>v_muted := True\<rparr>
            in video_play_catch outcome ''Webcam play failed'' (s\<lparr>videoRef := Some videoEl\<rparr>)
          else
            let videoEl = videoEl\<lparr>v_srcObject := None\<rparr>;
                videoEl = videoEl\<lparr>v_src := or_empty (p_currentVideoUrl p)\<rparr>;
                videoEl = videoEl\<lparr>v_muted := (p_source p \<noteq> ANIMATION)\<rparr>;
                s = s\<lparr>videoRef := Some videoEl\<rparr>
            in if truthy (p_currentVideoUrl p)
               then video_play_catch outcome ''Media play failed'' s
               else s)"

subsection \<open>The sync effect (lines 69-100)\<close>

text \<open>
  The bodies of \<open>handlePlay\<close>, \<open>handlePause\<close> and \<open>handleSeek\<close>; the last computes
  \<open>Math.abs(audioEl.currentTime - videoEl.currentTime) > 0.5\<close> in binary64.
\<close>

fun call_listener :: "listener \<Rightarrow> play_outcome \<Rightarrow> StreamPreview \<Rightarrow> StreamPreview" where
  "call_listener (HandlePlay i a) outcome s = audio_play_catch a outcome ''Audio sync play failed'' s"
| "call_listener (HandlePause i a) outcome s = audio_pause a s"
| "call_listener (HandleSeek i a) outcome s =
     (case (videoRef s, audioEls s a) of
        (Some videoEl, Some audioEl) \<Rightarrow>
          if lessThan_num (Num (1 / 2))
               (Math_abs (minus_binary64 (a_currentTime audioEl) (v_currentTime videoEl)))
          then audio_set_currentTime a (v_currentTime videoEl) s
          else s
      | _ \<Rightarrow> s)"

text \<open>The cleanup function that a run of the sync effect returns.\<close>

definition syncCleanup_run :: "nat \<times> nat \<Rightarrow> StreamPreview \<Rightarrow> StreamPreview" where
  "syncCleanup_run c s =
     (let i = fst c; a = snd c;
          s = s\<lparr>videoRef := map_option
                (\<lambda>videoEl. removeEventListener ''timeupdate'' (HandleSeek i a)
                   (removeEventListener ''pause'' (HandlePause i a)
                     (removeEventListener ''play'' (HandlePlay i a) videoEl))) (videoRef s)\<rparr>;
          s = audio_pause a s
      in audio_set_currentTime a 0 s)"

definition syncEffect :: "StreamPreviewProps \<Rightarrow> play_outcome \<Rightarrow> StreamPreview \<Rightarrow> StreamPreview" where
  "syncEffect p outcome s =
     (case (videoRef s, audioRef s) of
        (Some videoEl, Some a) \<Rightarrow>
          if p_source p \<noteq> ANIMATION then
            (audio_set_currentTime a 0 (audio_pause a s))\<lparr>syncCleanup := None\<rparr>
          else
            let i = effectRuns s;
                videoEl = addEventListener ''play'' (HandlePlay i a) videoEl;
                videoEl = addEventListener ''pause'' (HandlePause i a) videoEl;
                videoEl = addEventListener ''timeupdate'' (HandleSeek i a) videoEl;
                s = s\<lparr>videoRef := Some videoEl, effectRuns := i + 1\<rparr>;
                s = (if \<not> v_paused videoEl then call_listener (HandlePlay i a) outcome s else s)
            in s\<lparr>syncCleanup := Some (i, a)\<rparr>
      | (_, Some a) \<Rightarrow> (audio_set_currentTime a 0 (audio_pause a s))\<lparr>syncCleanup := None\<rparr>
      | (_, None) \<Rightarrow> s\<lparr>syncCleanup := None\<rparr>)"

subsection \<open>React: rendering and running the effects\<close>

text \<open>
  A render commits the elements first: the \<open><video>\<close> node is created once and stays; the
  \<open><audio>\<close> node exists exactly while \<open>source === ANIMATION && currentAudioUrl\<close>, keeps
  its identity while it stays mounted (its \<open>src\<close> follows the prop) and is a new element
  after it was unmounted; \<open>audioRef.current\<close> is \<open>null\<close> while there is none.
\<close>

definition renderDOM :: "StreamPreviewProps \<Rightarrow> StreamPreview \<Rightarrow> StreamPreview" where
  "renderDOM p s =
     (let s = (case videoRef s of
                 None \<Rightarrow> s\<lparr>videoRef := Some \<lparr>v_srcObject = None, v_src = [], v_muted = False,
                                 v_paused = True, v_currentTime = 0, v_listeners = []\<rparr>\<rparr>
               | Some videoEl \<Rightarrow> s)
      in if p_source p = ANIMATION \<and> truthy (p_currentAudioUrl p) then
           (case audioRef s of
              Some a \<Rightarrow>
                (case audioEls s a of None \<Rightarrow> s
                 | Some audioEl \<Rightarrow>
                     s\<lparr>audioEls := (audioEls s)(a \<mapsto> audioEl\<lparr>a_src := or_empty (p_currentAudioUrl p)\<rparr>)\<rparr>)
            | None \<Rightarrow>
                s\<lparr>audioEls := (audioEls s)(nextAudio s \<mapsto>
                       \<lparr>a_src = or_empty (p_currentAudioUrl p), a_paused = True, a_currentTime = 0\<rparr>),
                  audioRef := Some (nextAudio s), nextAudio := nextAudio s + 1\<rparr>)
         else s\<lparr>audioRef := None\<rparr>)"

text \<open>
  After the commit React runs the cleanup of every effect whose dependencies changed, then
  those effects, in the order of their declaration. \<open>cleanupPhase\<close> is the first half for
  the sync effect (the binding effect returns no cleanup).
\<close>

definition syncChanged :: "StreamPreviewProps \<Rightarrow> StreamPreview \<Rightarrow> bool" where
  "syncChanged p s = (syncDeps s \<noteq> Some (p_source p, p_currentAudioUrl p))"

definition bindingChanged :: "StreamPreviewProps \<Rightarrow> StreamPreview \<Rightarrow> bool" where
  "bindingChanged p s = (bindingDeps s \<noteq> Some (p_stream p, p_source p, p_currentVideoUrl p))"

definition cleanupPhase :: "StreamPreviewProps \<Rightarrow> StreamPreview \<Rightarrow> StreamPreview" where
  "cleanupPhase p s =
     (if syncChanged p s
      then (case syncCleanup s of None \<Rightarrow> s
            | Some c \<Rightarrow> (syncCleanup_run c s)\<lparr>syncCleanup := None\<rparr>)
      else s)"

definition effectPhase :: "StreamPreviewProps \<Rightarrow> play_outcome \<Rightarrow> play_outcome \<Rightarrow> bool \<Rightarrow> bool
    \<Rightarrow> StreamPreview \<Rightarrow> StreamPreview" where
  "effectPhase p videoPlay audioPlay runBinding runSync s =
     (let s = (if runBinding
               then bindingEffect p videoPlay
                      (s\<lparr>bindingDeps := Some (p_stream p, p_source p, p_currentVideoUrl p)\<rparr>)
               else s)
      in if runSync
         then syncEffect p audioPlay (s\<lparr>syncDeps := Some (p_source p, p_currentAudioUrl p)\<rparr>)
         else s)"

definition render :: "StreamPreviewProps \<Rightarrow> play_outcome \<Rightarrow> play_outcome \<Rightarrow> StreamPreview \<Rightarrow> StreamPreview" where
  "render p videoPlay audioPlay s =
     effectPhase p videoPlay audioPlay (bindingChanged p s) (syncChanged p s)
       (cleanupPhase p (renderDOM p s))"

text \<open>
  An event of the video element runs the listeners registered for its type, in order.
\<close>

definition dispatchEvent :: "string \<Rightarrow> play_outcome \<Rightarrow> StreamPreview \<Rightarrow> StreamPreview" where
  "dispatchEvent type outcome s =
     (case videoRef s of None \<Rightarrow> s
      | Some videoEl \<Rightarrow>
          foldl (\<lambda>s l. if fst l = type then call_listener (snd l) outcome s else s) s
            (v_listeners videoEl))"

text \<open>
  The environment: the browser changes the playback state of the video (\<open>VideoState\<close>:
  paused, position) or of an audio element (\<open>AudioState\<close>), the parent renders the
  component with new props, or the video element fires an event.
\<close>

datatype action =
    Render StreamPreviewProps play_outcome play_outcome
  | VideoEvent string play_outcome
  | VideoState bool rat
  | AudioState nat bool rat

fun step :: "StreamPreview \<Rightarrow> action \<Rightarrow> StreamPreview" where
  "step s (Render p videoPlay audioPlay) = render p videoPlay audioPlay s"
| "step s (VideoEvent type outcome) = dispatchEvent type outcome s"
| "step s (VideoState paused t) =
     s\<lparr>videoRef := map_option (\<lambda>videoEl. videoEl\<lparr>v_paused := paused, v_currentTime := t\<rparr>) (videoRef s)\<rparr>"
| "step s (AudioState a paused t) =
     (case audioEls s a of None \<Rightarrow> s
      | Some audioEl \<Rightarrow> s\<lparr>audioEls := (audioEls s)(a \<mapsto> audioEl\<lparr>a_paused := paused, a_currentTime := t\<rparr>)\<rparr>)"

definition run :: "action list \<Rightarrow> StreamPreview" where
  "run actions = foldl step unmounted actions"

section \<open>Vocabulary of the preview controller's claims\<close>

text \<open>
  The listeners on the video node, the three registrations that one run of the sync effect
  makes, and the invariant that ties them to the pending cleanup: the video carries
  exactly the registrations that the pending cleanup will remove (none when no cleanup is
  pending), the audio element a cleanup captured is the one behind \<open>audioRef\<close>, that
  element exists, and a cleanup is pending exactly while the last render selected
  the animation with an audio URL.
\<close>

definition listeners_of :: "StreamPreview \<Rightarrow> (string \<times> listener) list" where
  "listeners_of s = (case videoRef s of None \<Rightarrow> [] | Some videoEl \<Rightarrow> v_listeners videoEl)"

definition registrations :: "nat \<times> nat \<Rightarrow> (string \<times> listener) list" where
  "registrations c =
     [(''play'', HandlePlay (fst c) (snd c)), (''pause'', HandlePause (fst c) (snd c)),
      (''timeupdate'', HandleSeek (fst c) (snd c))]"

definition sync_selected :: "(StreamSource \<times> string option) option \<Rightarrow> bool" where
  "sync_selected deps = (case deps of None \<Rightarrow> False | Some d \<Rightarrow> fst d = ANIMATION \<and> truthy (snd d))"

definition sync_inv :: "StreamPreview \<Rightarrow> bool" where
  "sync_inv s =
     (listeners_of s = (case syncCleanup s of None \<Rightarrow> [] | Some c \<Rightarrow> registrations c)
      \<and> (case syncCleanup s of None \<Rightarrow> True
          | Some c \<Rightarrow> audioRef s = Some (snd c))
      \<and> (case audioRef s of None \<Rightarrow> True | Some a \<Rightarrow> audioEls s a \<noteq> None)
      \<and> (syncCleanup s \<noteq> None) = sync_selected (syncDeps s)
      \<and> (audioRef s \<noteq> None) = sync_selected (syncDeps s))"

text \<open>
  The binding of a state: the state with what playback alone changes erased (the paused
  flags, the positions and the console).
\<close>

definition binding_of :: "StreamPreview \<Rightarrow> StreamPreview" where
  "binding_of s =
     s\<lparr>videoRef := map_option (\<lambda>videoEl. videoEl\<lparr>v_paused := True, v_currentTime := 0\<rparr>) (videoRef s),
       audioEls := (\<lambda>a. map_option (\<lambda>audioEl. audioEl\<lparr>a_paused := True, a_currentTime := 0\<rparr>)
                          (audioEls s a)),
       console := []\<rparr>"

text \<open>Props for concrete runs: a generated animation with its narration, and a library video.\<close>

definition example_animation :: StreamPreviewProps where
  "example_animation = \<lparr>p_stream = None, p_source = ANIMATION,
     p_currentVideoUrl = Some ''blob:video-1'', p_currentAudioUrl = Some ''blob:audio-1''\<rparr>"

definition example_video :: StreamPreviewProps where
  "example_video = \<lparr>p_stream = None, p_source = VIDEO_LIBRARY,
     p_currentVideoUrl = Some ''blob:video-2'', p_currentAudioUrl = None\<rparr>"



section \<open>The encoder: auxiliary facts\<close>

lemma andThen_Inr [simp]: "andThen (Inr x) f = f x"
  by (simp add: andThen_def)

lemma andThen_Inl [simp]: "andThen (Inl e) f = Inl e"
  by (simp add: andThen_def)

lemma store_append:
  "off = length pre \<Longrightarrow> length bs \<le> length rest \<Longrightarrow>
   store (pre @ rest) off bs = Inr ((pre @ bs) @ drop (length bs) rest)"
  by (simp add: store_def)

lemma setUint8_store: "setUint8 view off v = store view off [of_nat v]"
  by (simp add: setUint8_def store_def upd_conv_take_nth_drop Suc_le_eq)

lemma writeString_from_store:
  "off + i + length cs \<le> length view \<Longrightarrow>
   writeString_from view off cs i =
     Inr (take (off + i) view @ map (\<lambda>c. of_nat (of_char c)) cs @ drop (off + i + length cs) view)"
proof (induction cs arbitrary: view i)
  case Nil
  then show ?case by simp
next
  case (Cons c cs)
  let ?v = "take (off + i) view @ [of_nat (of_char c)] @ drop (off + i + 1) view"
  have 1: "setUint8 view (off + i) (of_char c) = Inr ?v"
    using Cons.prems by (simp add: setUint8_store store_def)
  have 2: "off + (i + 1) + length cs \<le> length ?v"
    using Cons.prems by simp
  have 3: "take (off + (i + 1)) ?v = take (off + i) view @ [of_nat (of_char c)]"
    using Cons.prems by (simp add: min_def)
  have 4: "drop (off + (i + 1) + length cs) ?v = drop (off + i + length (c # cs)) view"
    using Cons.prems by (simp add: add.commute add.left_commute)
  show ?case
    unfolding writeString_from.simps 1 andThen_Inr Cons.IH [OF 2] 3 4 by simp
qed

lemma writeString_store:
  "off + length str \<le> length view \<Longrightarrow>
   writeString view off str = store view off (map (\<lambda>c. of_nat (of_char c)) str)"
  by (simp add: writeString_def writeString_from_store store_def)

lemma length_int16_elements: "length (int16_elements bs) = length bs div 2"
  by (induction bs rule: int16_elements.induct) simp_all

lemma length_bytes16 [simp]: "length (bytes16 w l) = 2"
  by (simp add: bytes16_def Let_def)

lemma length_bytes32 [simp]: "length (bytes32 w l) = 4"
  by (simp add: bytes32_def Let_def)

lemma writeSamples_store:
  "offset + 2 * length cs \<le> length view \<Longrightarrow>
   writeSamples view offset cs =
     Inr (take offset view @ concat (map (\<lambda>c. bytes16 (ToInt16 (scaledSample c)) True) cs)
          @ drop (offset + 2 * length cs) view)"
proof (induction cs arbitrary: view offset)
  case Nil
  then show ?case by simp
next
  case (Cons c cs)
  let ?b = "bytes16 (ToInt16 (scaledSample c)) True"
  let ?v = "take offset view @ ?b @ drop (offset + 2) view"
  have 1: "setInt16 view offset (scaledSample c) True = Inr ?v"
    using Cons.prems by (simp add: setInt16_def store_def)
  have 2: "offset + 2 + 2 * length cs \<le> length ?v"
    using Cons.prems by simp
  have 3: "take (offset + 2) ?v = take offset view @ ?b"
    using Cons.prems by (simp add: min_def)
  have 4: "drop (offset + 2 + 2 * length cs) ?v = drop (offset + 2 * length (c # cs)) view"
    using Cons.prems by (simp add: add.commute add.left_commute)
  show ?case
    unfolding writeSamples.simps 1 andThen_Inr Cons.IH [OF 2] 3 4 by simp
qed

lemma int16_elements_nonempty: "bs \<noteq> [] \<Longrightarrow> even (length bs) \<Longrightarrow> int16_elements bs \<noteq> []"
  by (cases bs rule: int16_elements.cases) auto

lemma decodeAudioData_ok:
  assumes "bs \<noteq> []" "even (length bs)"
  shows "decodeAudioData bs ctx =
     Inr \<lparr>buffer_length = length bs div 2, buffer_sampleRate = 24000,
          buffer_channels = [map (\<lambda>x. Num (of_int (sint x) / 32768)) (int16_elements bs)]\<rparr>"
  using assms int16_elements_nonempty [OF assms]
  by (simp add: decodeAudioData_def new_Int16Array_def createBuffer_def getChannelData_def
        Let_def length_int16_elements)

lemma byte_of_nat_mod: "(of_nat (v mod 256) :: 8 word) = of_nat v"
  by (simp add: word_eq_iff_unsigned [where ?'a = nat] unsigned_of_nat take_bit_eq_mod)

lemma ucast_drop_bit_of_nat32:
  "j \<le> 24 \<Longrightarrow> (ucast (drop_bit j (of_nat v :: 32 word)) :: 8 word) = of_nat (v div 2 ^ j)"
  by (rule bit_word_eqI) (auto simp: bit_simps simp flip: drop_bit_eq_div)

lemma ucast_drop_bit_of_nat16:
  "j \<le> 8 \<Longrightarrow> (ucast (drop_bit j (of_nat v :: 16 word)) :: 8 word) = of_nat (v div 2 ^ j)"
  by (rule bit_word_eqI) (auto simp: bit_simps simp flip: drop_bit_eq_div)

lemma bytes32_of_nat: "bytes32 (of_nat v) True = uint32_le v"
  using ucast_drop_bit_of_nat32 [of 0 v] ucast_drop_bit_of_nat32 [of 8 v]
    ucast_drop_bit_of_nat32 [of 16 v] ucast_drop_bit_of_nat32 [of 24 v]
  by (simp add: bytes32_def uint32_le_def byte_of_nat_mod)

lemma bytes16_of_nat: "bytes16 (of_nat v) True = uint16_le v"
  using ucast_drop_bit_of_nat16 [of 0 v] ucast_drop_bit_of_nat16 [of 8 v]
  by (simp add: bytes16_def uint16_le_def byte_of_nat_mod)

lemma header_chain:
  assumes "length chs = n"
  shows "andThen (writeString (new_ArrayBuffer (44 + n * 2)) 0 ''RIFF'') (\<lambda>view.
     andThen (setUint32 view (0 + 4) (36 + length chs * 2) True) (\<lambda>view.
     andThen (writeString view (0 + 4 + 4) ''WAVE'') (\<lambda>view.
     andThen (writeString view (0 + 4 + 4 + 4) ''fmt '') (\<lambda>view.
     andThen (setUint32 view (0 + 4 + 4 + 4 + 4) 16 True) (\<lambda>view.
     andThen (setUint16 view (0 + 4 + 4 + 4 + 4 + 4) 1 True) (\<lambda>view.
     andThen (setUint16 view (0 + 4 + 4 + 4 + 4 + 4 + 2) 1 True) (\<lambda>view.
     andThen (setUint32 view (0 + 4 + 4 + 4 + 4 + 4 + 2 + 2)
                (sampleRate (new_AudioContext 24000)) True) (\<lambda>view.
     andThen (setUint32 view (0 + 4 + 4 + 4 + 4 + 4 + 2 + 2 + 4)
                (sampleRate (new_AudioContext 24000) * 2) True) (\<lambda>view.
     andThen (setUint16 view (0 + 4 + 4 + 4 + 4 + 4 + 2 + 2 + 4 + 4) 2 True) (\<lambda>view.
     andThen (setUint16 view (0 + 4 + 4 + 4 + 4 + 4 + 2 + 2 + 4 + 4 + 2) 16 True) (\<lambda>view.
     andThen (writeString view (0 + 4 + 4 + 4 + 4 + 4 + 2 + 2 + 4 + 4 + 2 + 2) ''data'') (\<lambda>view.
     andThen (setUint32 view (0 + 4 + 4 + 4 + 4 + 4 + 2 + 2 + 4 + 4 + 2 + 2 + 4)
                (length chs * 2) True) (\<lambda>view.
     andThen (writeSamples view (0 + 4 + 4 + 4 + 4 + 4 + 2 + 2 + 4 + 4 + 2 + 2 + 4 + 4) chs) f)))))))))))))
    = andThen (writeSamples (spec_wav_header 24000 (n * 2) @ replicate (n * 2) 0) 44 chs) f"
proof -
  have v: "new_ArrayBuffer (44 + n * 2) = [] @ replicate (44 + n * 2) 0"
    by (simp add: new_ArrayBuffer_def)
  have h: "spec_wav_header 24000 (n * 2) =
     ((((((((((((([] @ ascii ''RIFF'') @ bytes32 (of_nat (36 + n * 2)) True) @ ascii ''WAVE'')
      @ ascii ''fmt '') @ bytes32 (of_nat 16) True) @ bytes16 (of_nat 1) True)
      @ bytes16 (of_nat 1) True) @ bytes32 (of_nat 24000) True) @ bytes32 (of_nat 48000) True)
      @ bytes16 (of_nat 2) True) @ bytes16 (of_nat 16) True) @ ascii ''data'')
      @ bytes32 (of_nat (n * 2)) True)"
    unfolding bytes32_of_nat bytes16_of_nat by (simp add: spec_wav_header_def)
  show ?thesis
    unfolding v h
    by (simp add: store_append writeString_store setUint32_def setUint16_def assms ascii_def
        new_AudioContext_def del: append_assoc append.simps)
qed

lemma length_spec_wav_header: "length (spec_wav_header rate dataBytes) = 44"
  by (simp add: spec_wav_header_def ascii_def uint32_le_def uint16_le_def)

lemma createAudioUrl_bytes:
  assumes "atob b = Inr cs" "cs \<noteq> []" "even (length cs)"
  shows "createAudioUrl atob b =
     Inr \<lparr>blob_bytes = spec_wav_header 24000 (length cs) @
            concat (map (\<lambda>x. bytes16 (ToInt16 (scaledSample (Num (of_int (sint x) / 32768)))) True)
                     (int16_elements (map of_nat cs))),
          blob_type = ''audio/wav''\<rparr>"
proof -
  let ?bs = "map of_nat cs :: bytes"
  let ?chs = "map (\<lambda>x. Num (of_int (sint x) / 32768)) (int16_elements ?bs)"
  let ?n = "length cs div 2"
  have d: "decode atob b = Inr ?bs"
    using assms by (simp add: decode_def)
  have a: "decodeAudioData ?bs (new_AudioContext 24000) =
     Inr \<lparr>buffer_length = ?n, buffer_sampleRate = 24000, buffer_channels = [?chs]\<rparr>"
    using decodeAudioData_ok [of ?bs] assms by simp
  have len: "length ?chs = ?n"
    by (simp add: length_int16_elements)
  have n2: "?n * 2 = length cs"
    using assms(3) by simp
  have w: "writeSamples (spec_wav_header 24000 (?n * 2) @ replicate (?n * 2) 0) 44 ?chs =
     Inr (spec_wav_header 24000 (?n * 2) @ concat (map (\<lambda>c. bytes16 (ToInt16 (scaledSample c)) True) ?chs))"
    using len by (subst writeSamples_store) (simp_all add: length_spec_wav_header)
  have g: "getChannelData \<lparr>buffer_length = ?n, buffer_sampleRate = 24000, buffer_channels = [?chs]\<rparr> 0
     = Inr ?chs"
    by (simp add: getChannelData_def)
  have bl: "buffer_length \<lparr>buffer_length = ?n, buffer_sampleRate = 24000, buffer_channels = [?chs]\<rparr> = ?n"
    by simp
  have "createAudioUrl atob b =
     andThen (writeSamples (spec_wav_header 24000 (?n * 2) @ replicate (?n * 2) 0) 44 ?chs)
       (\<lambda>view. Inr \<lparr>blob_bytes = view, blob_type = ''audio/wav''\<rparr>)"
    unfolding createAudioUrl_def Let_def d andThen_Inr a g bl header_chain [OF len] ..
  then have "createAudioUrl atob b =
     Inr \<lparr>blob_bytes = spec_wav_header 24000 (?n * 2) @
            concat (map (\<lambda>c. bytes16 (ToInt16 (scaledSample c)) True) ?chs),
          blob_type = ''audio/wav''\<rparr>"
    unfolding w andThen_Inr .
  then show ?thesis
    unfolding n2 by (simp add: comp_def)
qed

lemma truncate_rat_of_int [simp]: "truncate_rat (of_int k) = k"
  by (simp add: truncate_rat_def)

lemma scaledSample_int:
  assumes lo: "- 32768 \<le> k" and hi: "k < 32768"
  shows "ToInt16 (scaledSample (Num (of_int k / 32768))) = word_of_int (if 0 < k then k - 1 else k)"
proof -
  let ?s = "of_int k / 32768 :: rat"
  have s_lo: "- 1 \<le> ?s" and s_hi: "?s \<le> 1"
    using lo hi by (simp_all add: le_divide_eq divide_le_eq)
  have clamp: "Math_max (Num (- 1)) (Math_min (Num 1) (Num ?s)) = Num ?s"
    using s_lo s_hi by (simp add: min_def max_def)
  show ?thesis
  proof (cases "k < 0")
    case True
    then have "scaledSample (Num ?s) = Num (of_int k)"
      unfolding scaledSample_def clamp by (simp add: divide_less_0_iff)
    then show ?thesis
      using True by simp
  next
    case False
    then have v: "scaledSample (Num ?s) = Num (of_int k * 32767 / 32768)"
      unfolding scaledSample_def clamp by (simp add: divide_less_0_iff)
    show ?thesis
    proof (cases "k = 0")
      case True
      then show ?thesis
        unfolding v by (simp add: truncate_rat_def)
    next
      case nz: False
      with False have pos: "0 < k" by simp
      have fl: "\<lfloor>(of_int k * 32767 / 32768 :: rat)\<rfloor> = k - 1"
      proof (rule floor_unique)
        have "(of_int k :: rat) \<le> 32768" using hi by simp
        then show "of_int (k - 1) \<le> (of_int k * 32767 / 32768 :: rat)"
          by (simp add: le_divide_eq)
        have "0 < (of_int k :: rat)" using pos by simp
        then show "(of_int k * 32767 / 32768 :: rat) < of_int (k - 1) + 1"
          by (simp add: divide_less_eq)
      qed
      have nn: "\<not> (of_int k * 32767 / 32768 :: rat) < 0"
        using pos by (simp add: divide_less_0_iff)
      show ?thesis
        unfolding v using pos nn fl by (simp add: truncate_rat_def)
    qed
  qed
qed

lemma scaledSample_decoded:
  "ToInt16 (scaledSample (Num (of_int (sint (x :: 16 word)) / 32768))) = requantized x"
proof -
  have lo: "- 32768 \<le> sint x" and hi: "sint x < 32768"
    using sint_ge [of x] sint_lt [of x] by simp_all
  show ?thesis
    unfolding scaledSample_int [OF lo hi] by (simp add: requantized_def)
qed

lemma createAudioUrl_odd:
  assumes "atob b = Inr cs" "odd (length cs)"
  shows "createAudioUrl atob b = Inl RangeError"
  using assms
  by (simp add: createAudioUrl_def decode_def decodeAudioData_def new_Int16Array_def
      odd_iff_mod_2_eq_one)

lemma createAudioUrl_empty:
  assumes "atob b = Inr []"
  shows "createAudioUrl atob b = Inl NotSupportedError"
  using assms
  by (simp add: createAudioUrl_def decode_def decodeAudioData_def new_Int16Array_def
      createBuffer_def)

lemma word16_join_split:
  "(ucast (ucast (w :: 16 word) :: 8 word) :: 16 word) OR
     push_bit 8 (ucast (ucast (drop_bit 8 w) :: 8 word)) = w"
  by (rule bit_word_eqI) (auto simp: bit_simps dest: bit_imp_le_length)

lemma int16_elements_bytes16:
  "int16_elements (concat (map (\<lambda>w. bytes16 w True) ws)) = ws"
  by (induction ws) (simp_all add: bytes16_def word16_join_split)

lemma unat_byte_of_nat: "unat (of_nat v :: 8 word) = v mod 256"
  by (simp add: unat_of_nat)

lemma read_uint32_le_uint32_le:
  assumes "v < 2 ^ 32"
  shows "read_uint32_le (pre @ uint32_le v @ post) (length pre) = v"
proof -
  have n: "unat (uint32_le v ! 0) = v mod 256" "unat (uint32_le v ! 1) = v div 256 mod 256"
    "unat (uint32_le v ! 2) = v div 65536 mod 256" "unat (uint32_le v ! 3) = v div 16777216 mod 256"
    by (simp_all add: uint32_le_def unat_byte_of_nat)
  have len: "length (uint32_le v) = 4"
    by (simp add: uint32_le_def)
  have r: "read_uint32_le (pre @ uint32_le v @ post) (length pre) =
     unat (uint32_le v ! 0) + 256 * unat (uint32_le v ! 1) + 65536 * unat (uint32_le v ! 2)
       + 16777216 * unat (uint32_le v ! 3)"
    by (simp add: read_uint32_le_def nth_append len)
  have "v div 16777216 < 256" using assms by simp
  then have 3: "v div 16777216 mod 256 = v div 16777216" by simp
  have 2: "v div 65536 mod 256 + 256 * (v div 16777216) = v div 65536"
    using div_mult2_eq [of v 65536 256] mod_mult_div_eq [of "v div 65536" 256] by simp
  have 1: "v div 256 mod 256 + 256 * (v div 65536) = v div 256"
    using div_mult2_eq [of v 256 256] mod_mult_div_eq [of "v div 256" 256] by simp
  have 0: "v mod 256 + 256 * (v div 256) = v"
    by simp
  show ?thesis
    unfolding r n 3 using 0 1 2 by linarith
qed

lemma scaledSample_Num:
  "scaledSample (Num r) =
     (let s = max (- 1) (min 1 r) in Num (if s < 0 then s * 32768 else s * 32767))"
  by (auto simp: scaledSample_def Let_def min_def max_def)

lemma truncate_rat_bounds:
  assumes "of_int lo \<le> r" "r \<le> of_int hi" "lo \<le> 0" "0 \<le> hi"
  shows "lo \<le> truncate_rat r \<and> truncate_rat r \<le> hi"
proof (cases "r < 0")
  case True
  have "- r < of_int (- lo) + 1" using assms(1) by simp
  then have "\<lfloor>- r\<rfloor> \<le> - lo" by (simp only: floor_le_iff)
  moreover have "0 \<le> - r" using True by simp
  then have "0 \<le> \<lfloor>- r\<rfloor>" by (simp only: zero_le_floor)
  ultimately have "lo \<le> - \<lfloor>- r\<rfloor> \<and> - \<lfloor>- r\<rfloor> \<le> hi" using assms(4) by linarith
  then show ?thesis using True by (simp only: truncate_rat_def if_True)
next
  case False
  have "r < of_int hi + 1" using assms(2) by simp
  then have "\<lfloor>r\<rfloor> \<le> hi" by (simp only: floor_le_iff)
  moreover have "0 \<le> r" using False by simp
  then have "0 \<le> \<lfloor>r\<rfloor>" by (simp only: zero_le_floor)
  ultimately have "lo \<le> \<lfloor>r\<rfloor> \<and> \<lfloor>r\<rfloor> \<le> hi" using assms(3) by linarith
  then show ?thesis using False by (simp only: truncate_rat_def if_False)
qed

lemma scaled_range:
  fixes r :: rat
  defines "s \<equiv> max (- 1) (min 1 r)"
  shows "- 32768 \<le> truncate_rat (if s < 0 then s * 32768 else s * 32767)
       \<and> truncate_rat (if s < 0 then s * 32768 else s * 32767) \<le> 32767"
proof -
  have lo: "- 1 \<le> s" and hi: "s \<le> 1"
    by (simp_all add: s_def)
  have "of_int (- 32768) \<le> (if s < 0 then s * 32768 else s * 32767)"
    using lo by simp
  moreover have "(if s < 0 then s * 32768 else s * 32767) \<le> of_int 32767"
    using hi by simp
  ultimately show ?thesis
    by (rule truncate_rat_bounds) simp_all
qed

lemma sint_word16_of_int:
  "- 32768 \<le> k \<Longrightarrow> k \<le> 32767 \<Longrightarrow> sint (word_of_int k :: 16 word) = k"
  by (simp add: sint_sbintrunc' signed_take_bit_int_eq_self)

lemma data_chunk_requantized:
  "concat (map (\<lambda>x. bytes16 (ToInt16 (scaledSample (Num (of_int (sint x) / 32768)))) True) xs)
     = concat (map (\<lambda>w. bytes16 w True) (map requantized xs))"
  unfolding scaledSample_decoded by (simp add: comp_def)

lemma length_concat_bytes16: "length (concat (map (\<lambda>w. bytes16 w True) ws)) = 2 * length ws"
  by (induction ws) simp_all

lemma length_uint32_le: "length (uint32_le v) = 4"
  by (simp add: uint32_le_def)

lemma read_chunk_size:
  assumes "36 + n < 2 ^ 32"
  shows "read_uint32_le (spec_wav_header rate n @ post) 4 = 36 + n"
proof -
  have "spec_wav_header rate n @ post = ascii ''RIFF'' @ uint32_le (36 + n) @
     (ascii ''WAVE'' @ ascii ''fmt '' @
     uint32_le 16 @ uint16_le 1 @ uint16_le 1 @ uint32_le rate @ uint32_le (rate * 2) @
     uint16_le 2 @ uint16_le 16 @ ascii ''data'' @ uint32_le n @ post)"
    by (simp add: spec_wav_header_def)
  moreover have "length (ascii ''RIFF'') = 4"
    by (simp add: ascii_def)
  ultimately show ?thesis
    using read_uint32_le_uint32_le [OF assms, of "ascii ''RIFF''"] by simp
qed

lemma read_data_size:
  assumes "n < 2 ^ 32"
  shows "read_uint32_le (spec_wav_header rate n @ post) 40 = n"
proof -
  let ?pre = "ascii ''RIFF'' @ uint32_le (36 + n) @ ascii ''WAVE'' @ ascii ''fmt '' @
     uint32_le 16 @ uint16_le 1 @ uint16_le 1 @ uint32_le rate @ uint32_le (rate * 2) @
     uint16_le 2 @ uint16_le 16 @ ascii ''data''"
  have "spec_wav_header rate n @ post = ?pre @ uint32_le n @ post"
    by (simp add: spec_wav_header_def)
  moreover have "length ?pre = 40"
    by (simp add: ascii_def length_uint32_le uint16_le_def)
  ultimately show ?thesis
    using read_uint32_le_uint32_le [OF assms, of ?pre post] by simp
qed

lemma example_length: "length [0, 0, 0, 64, 0, 192, 255, 127 :: nat] = 8"
  by simp

lemma stored_value:
  "sint (ToInt16 (scaledSample c)) =
     (case c of
        Num r \<Rightarrow> truncate_rat (let s = max (- 1) (min 1 r) in if s < 0 then s * 32768 else s * 32767)
      | PosInf \<Rightarrow> 32767 | NegInf \<Rightarrow> - 32768 | NaN \<Rightarrow> 0)"
proof (cases c)
  case (Num r)
  then show ?thesis
    using scaled_range [of r] by (simp add: scaledSample_Num Let_def sint_word16_of_int)
qed (simp_all add: scaledSample_def Let_def truncate_rat_def)

lemma clamp_extremes:
  fixes r :: rat
  shows "1 \<le> r \<Longrightarrow> truncate_rat (let s = max (- 1) (min 1 r) in if s < 0 then s * 32768 else s * 32767) = 32767"
    and "r \<le> - 1 \<Longrightarrow> truncate_rat (let s = max (- 1) (min 1 r) in if s < 0 then s * 32768 else s * 32767) = - 32768"
  by (simp_all add: Let_def min_def max_def truncate_rat_def)

section \<open>The encoder: claims\<close>

text \<open>
  C1 (as amended). For a binary string of even length \<open>2n\<close> with \<open>n > 0\<close> (and a size that
  fits the 32-bit fields), \<open>createAudioUrl\<close> produces \<open>44 + 2n\<close> bytes whose header
  declares a data size of \<open>2n\<close> and a RIFF chunk size of \<open>36 + 2n\<close>. The data chunk is
  not the input: read back as 16-bit samples it is the input with every positive sample
  decreased by one, and every zero or negative sample unchanged.
\<close>

theorem createAudioUrl_data_chunk:
  assumes "atob b = Inr cs" "cs \<noteq> []" "even (length cs)" "36 + length cs < 2 ^ 32"
  shows "\<exists>blob. createAudioUrl atob b = Inr blob
     \<and> length (blob_bytes blob) = 44 + length cs
     \<and> read_uint32_le (blob_bytes blob) 40 = length cs
     \<and> read_uint32_le (blob_bytes blob) 4 = 36 + length cs
     \<and> int16_elements (drop 44 (blob_bytes blob)) = map requantized (int16_elements (map of_nat cs))"
proof -
  let ?xs = "int16_elements (map of_nat cs)"
  let ?data = "concat (map (\<lambda>w. bytes16 w True) (map requantized ?xs))"
  let ?out = "spec_wav_header 24000 (length cs) @ ?data"
  have c: "createAudioUrl atob b = Inr \<lparr>blob_bytes = ?out, blob_type = ''audio/wav''\<rparr>"
    using createAudioUrl_bytes [of atob b cs] assms(1-3) unfolding data_chunk_requantized by blast
  have l: "length ?data = length cs"
    using assms(3) length_concat_bytes16 [of "map requantized ?xs"]
    by (simp add: length_int16_elements)
  have 1: "length ?out = 44 + length cs"
    using l by (simp add: length_spec_wav_header)
  have 2: "read_uint32_le ?out 40 = length cs"
    using assms(4) by (intro read_data_size) simp
  have 3: "read_uint32_le ?out 4 = 36 + length cs"
    using assms(4) by (rule read_chunk_size)
  have 4: "int16_elements (drop 44 ?out) = map requantized ?xs"
    using int16_elements_bytes16 [of "map requantized ?xs"]
    by (simp add: length_spec_wav_header)
  show ?thesis
    using c 1 2 3 4 by simp
qed

text \<open>
  C1, witness: the four samples \<open>[0, 16384, -16384, 32767]\<close> of the spec's end-to-end
  scenario give 52 bytes, sizes 8 and 44, and the samples \<open>[0, 16383, -16384, 32766]\<close>.
\<close>

theorem createAudioUrl_data_chunk_witness:
  "\<exists>blob. createAudioUrl (const_atob [0, 0, 0, 64, 0, 192, 255, 127]) ''AAAAQADA/38='' = Inr blob
     \<and> length (blob_bytes blob) = 52
     \<and> read_uint32_le (blob_bytes blob) 40 = 8
     \<and> read_uint32_le (blob_bytes blob) 4 = 44
     \<and> int16_elements (drop 44 (blob_bytes blob)) = [0, 16383, - 16384, 32766]"
proof -
  have "\<exists>blob. createAudioUrl (const_atob [0, 0, 0, 64, 0, 192, 255, 127]) ''AAAAQADA/38='' = Inr blob
     \<and> length (blob_bytes blob) = 44 + 8
     \<and> read_uint32_le (blob_bytes blob) 40 = 8
     \<and> read_uint32_le (blob_bytes blob) 4 = 36 + 8
     \<and> int16_elements (drop 44 (blob_bytes blob)) =
          map requantized (int16_elements (map of_nat [0, 0, 0, 64, 0, 192, 255, 127]))"
    using createAudioUrl_data_chunk [of "const_atob [0, 0, 0, 64, 0, 192, 255, 127]"
        "''AAAAQADA/38=''" "[0, 0, 0, 64, 0, 192, 255, 127]", unfolded example_length]
    by (simp add: const_atob_def)
  then obtain blob where
    "createAudioUrl (const_atob [0, 0, 0, 64, 0, 192, 255, 127]) ''AAAAQADA/38='' = Inr blob"
    "length (blob_bytes blob) = 44 + 8"
    "read_uint32_le (blob_bytes blob) 40 = 8"
    "read_uint32_le (blob_bytes blob) 4 = 36 + 8"
    "int16_elements (drop 44 (blob_bytes blob)) =
          map requantized (int16_elements (map of_nat [0, 0, 0, 64, 0, 192, 255, 127]))"
    by blast
  then show ?thesis
    by (intro exI [of _ blob]) (simp add: requantized_def)
qed

text \<open>
  C1, counterexample to the byte-exact round trip: for the same four samples the data
  chunk is \<open>00 00 FF 3F 00 C0 FE 7F\<close>, so bytes 46-47 are \<open>FF 3F\<close> and bytes 50-51 are
  \<open>FE 7F\<close>, not the input's \<open>00 40\<close> and \<open>FF 7F\<close>.
\<close>

theorem createAudioUrl_round_trip_counterexample:
  "map_sum id (drop 44 \<circ> blob_bytes)
      (createAudioUrl (const_atob [0, 0, 0, 64, 0, 192, 255, 127]) ''AAAAQADA/38='')
     = Inr [0x00, 0x00, 0xFF, 0x3F, 0x00, 0xC0, 0xFE, 0x7F]
   \<and> map_sum id (drop 44 \<circ> blob_bytes)
      (createAudioUrl (const_atob [0, 0, 0, 64, 0, 192, 255, 127]) ''AAAAQADA/38='')
     \<noteq> Inr [0x00, 0x00, 0x00, 0x40, 0x00, 0xC0, 0xFF, 0x7F]"
proof -
  have "createAudioUrl (const_atob [0, 0, 0, 64, 0, 192, 255, 127]) ''AAAAQADA/38='' =
     Inr \<lparr>blob_bytes = spec_wav_header 24000 8 @
             concat (map (\<lambda>w. bytes16 w True) (map requantized
               (int16_elements (map of_nat [0, 0, 0, 64, 0, 192, 255, 127])))),
          blob_type = ''audio/wav''\<rparr>"
    using createAudioUrl_bytes [of "const_atob [0, 0, 0, 64, 0, 192, 255, 127]" "''AAAAQADA/38=''"
      "[0, 0, 0, 64, 0, 192, 255, 127]", unfolded example_length]
    unfolding data_chunk_requantized by (simp add: const_atob_def)
  then show ?thesis
    by (simp add: length_spec_wav_header requantized_def bytes16_def)
qed

text \<open>
  C3 (as amended). Given the decoded binary string, \<open>createAudioUrl\<close> fails exactly when
  the byte length is odd or there is no sample, and it fails with the platform's
  exception: \<open>RangeError\<close> from the \<open>Int16Array\<close> constructor for an odd length,
  \<open>NotSupportedError\<close> from \<open>createBuffer\<close> for an empty input. Every other input
  yields a WAV blob. The source has no error of its own for malformed audio.
\<close>

theorem createAudioUrl_failures:
  assumes "atob b = Inr cs"
  shows "(odd (length cs) \<longrightarrow> createAudioUrl atob b = Inl RangeError)
     \<and> (cs = [] \<longrightarrow> createAudioUrl atob b = Inl NotSupportedError)
     \<and> (cs \<noteq> [] \<and> even (length cs) \<longrightarrow> (\<exists>blob. createAudioUrl atob b = Inr blob))"
  using createAudioUrl_odd [of atob b cs] createAudioUrl_empty [of atob b]
    createAudioUrl_bytes [of atob b cs] assms
  by blast

text \<open>C3, witness: three bytes, no byte, two bytes.\<close>

theorem createAudioUrl_failures_witness:
  "createAudioUrl (const_atob [1, 2, 3]) '''' = Inl RangeError
   \<and> createAudioUrl (const_atob []) '''' = Inl NotSupportedError
   \<and> (\<exists>blob. createAudioUrl (const_atob [1, 2]) '''' = Inr blob)"
  using createAudioUrl_failures [of "const_atob [1, 2, 3]" "''''" "[1, 2, 3]"]
    createAudioUrl_failures [of "const_atob []" "''''" "[]"]
    createAudioUrl_failures [of "const_atob [1, 2]" "''''" "[1, 2]"]
  by (simp add: const_atob_def)

text \<open>
  C3, counterexample to a single \<open>MalformedAudio\<close> error: the two kinds of malformed input
  fail with two different exceptions, both raised by the platform.
\<close>

theorem createAudioUrl_error_counterexample:
  "createAudioUrl (const_atob [1, 2, 3]) '''' = Inl RangeError
   \<and> createAudioUrl (const_atob []) '''' = Inl NotSupportedError
   \<and> createAudioUrl (const_atob [1, 2, 3]) '''' \<noteq> createAudioUrl (const_atob []) ''''"
  using createAudioUrl_odd [of "const_atob [1, 2, 3]" "''''" "[1, 2, 3]"]
    createAudioUrl_empty [of "const_atob []" "''''"]
  by (simp add: const_atob_def)

text \<open>
  C4. Whenever \<open>createAudioUrl\<close> produces a WAV, its first 44 bytes are the header the
  spec lists, for the sample rate 24000 and \<open>dataBytes\<close> the input's byte length, which is
  twice the sample count; the audio format and the channel count at offsets 20-23 are 1
  and the bits per sample at offsets 34-35 are 16.
\<close>

theorem wav_header_layout:
  assumes "atob b = Inr cs" "cs \<noteq> []" "even (length cs)"
  shows "\<exists>blob. createAudioUrl atob b = Inr blob
     \<and> take 44 (blob_bytes blob) = spec_wav_header 24000 (length cs)
     \<and> length cs = 2 * length (int16_elements (map of_nat cs))
     \<and> take 2 (drop 20 (blob_bytes blob)) = [1, 0]
     \<and> take 2 (drop 22 (blob_bytes blob)) = [1, 0]
     \<and> take 2 (drop 34 (blob_bytes blob)) = [16, 0]"
proof -
  let ?data = "concat (map (\<lambda>x. bytes16 (ToInt16 (scaledSample (Num (of_int (sint x) / 32768)))) True)
                     (int16_elements (map of_nat cs)))"
  let ?out = "spec_wav_header 24000 (length cs) @ ?data"
  have c: "createAudioUrl atob b = Inr \<lparr>blob_bytes = ?out, blob_type = ''audio/wav''\<rparr>"
    using createAudioUrl_bytes [of atob b cs] assms by blast
  have 1: "take 44 ?out = spec_wav_header 24000 (length cs)"
    by (simp add: length_spec_wav_header)
  have 2: "length cs = 2 * length (int16_elements (map of_nat cs))"
    using assms(3) by (simp add: length_int16_elements)
  have f: "take 2 (drop 20 ?out) = [1, 0]" "take 2 (drop 22 ?out) = [1, 0]"
    "take 2 (drop 34 ?out) = [16, 0]"
    by (simp_all add: spec_wav_header_def ascii_def uint32_le_def uint16_le_def)
  show ?thesis
    using c 1 2 f by simp
qed

text \<open>C4, witness: the header for the four samples of the end-to-end scenario.\<close>

theorem wav_header_layout_witness:
  "\<exists>blob. createAudioUrl (const_atob [0, 0, 0, 64, 0, 192, 255, 127]) ''AAAAQADA/38='' = Inr blob
     \<and> take 44 (blob_bytes blob) =
        [0x52, 0x49, 0x46, 0x46, 44, 0, 0, 0, 0x57, 0x41, 0x56, 0x45, 0x66, 0x6D, 0x74, 0x20,
         16, 0, 0, 0, 1, 0, 1, 0, 0xC0, 0x5D, 0, 0, 0x80, 0xBB, 0, 0, 2, 0, 16, 0,
         0x64, 0x61, 0x74, 0x61, 8, 0, 0, 0]"
proof -
  have "\<exists>blob. createAudioUrl (const_atob [0, 0, 0, 64, 0, 192, 255, 127]) ''AAAAQADA/38='' = Inr blob
     \<and> take 44 (blob_bytes blob) = spec_wav_header 24000 8"
    using wav_header_layout [of "const_atob [0, 0, 0, 64, 0, 192, 255, 127]"
        "''AAAAQADA/38=''" "[0, 0, 0, 64, 0, 192, 255, 127]", unfolded example_length]
    by (simp add: const_atob_def, blast)
  then obtain blob where
    "createAudioUrl (const_atob [0, 0, 0, 64, 0, 192, 255, 127]) ''AAAAQADA/38='' = Inr blob"
    "take 44 (blob_bytes blob) = spec_wav_header 24000 8"
    by blast
  then show ?thesis
    by (intro exI [of _ blob]) (simp add: spec_wav_header_def ascii_def uint32_le_def uint16_le_def)
qed

text \<open>
  C5. The sample loop stores one 16-bit value per channel sample, little-endian, at
  \<open>offset + 2 i\<close>, and leaves every other byte alone. The stored value is the sample
  clamped to \<open>[-1, 1]\<close>, scaled by 32768 when negative and by 32767 otherwise, and
  truncated; that number always lies between -32768 and 32767, so the conversion to 16
  bits never wraps. A sample of at least 1 (or \<open>+Infinity\<close>) is stored as 32767 and a sample
  of at most -1 (or \<open>-Infinity\<close>) as -32768. The data chunk of \<open>createAudioUrl\<close> holds these
  values for the decoded samples.
\<close>

theorem quantization_clamps:
  assumes "offset + 2 * length cs \<le> length view"
  shows "\<exists>out. writeSamples view offset cs = Inr out
     \<and> length out = length view
     \<and> take offset out = take offset view
     \<and> drop (offset + 2 * length cs) out = drop (offset + 2 * length cs) view
     \<and> map sint (int16_elements (take (2 * length cs) (drop offset out))) =
         map (\<lambda>c. case c of
                Num r \<Rightarrow> truncate_rat (let s = max (- 1) (min 1 r)
                                        in if s < 0 then s * 32768 else s * 32767)
              | PosInf \<Rightarrow> 32767 | NegInf \<Rightarrow> - 32768 | NaN \<Rightarrow> 0) cs
     \<and> (\<forall>r. - 32768 \<le> truncate_rat (let s = max (- 1) (min 1 r)
                                        in if s < 0 then s * 32768 else s * 32767)
            \<and> truncate_rat (let s = max (- 1) (min 1 r)
                                        in if s < 0 then s * 32768 else s * 32767) \<le> 32767)
     \<and> (\<forall>r. 1 \<le> r \<longrightarrow> truncate_rat (let s = max (- 1) (min 1 r)
                                        in if s < 0 then s * 32768 else s * 32767) = 32767)
     \<and> (\<forall>r. r \<le> - 1 \<longrightarrow> truncate_rat (let s = max (- 1) (min 1 r)
                                        in if s < 0 then s * 32768 else s * 32767) = - 32768)
     \<and> (atob b = Inr bs \<and> bs \<noteq> [] \<and> even (length bs) \<longrightarrow>
          (\<exists>blob. createAudioUrl atob b = Inr blob
             \<and> int16_elements (drop 44 (blob_bytes blob)) =
                 map (\<lambda>x. ToInt16 (scaledSample (Num (of_int (sint x) / 32768))))
                   (int16_elements (map of_nat bs))))"
proof -
  let ?data = "concat (map (\<lambda>w. bytes16 w True) (map (\<lambda>c. ToInt16 (scaledSample c)) cs))"
  let ?out = "take offset view @ ?data @ drop (offset + 2 * length cs) view"
  have d: "concat (map (\<lambda>c. bytes16 (ToInt16 (scaledSample c)) True) cs) = ?data"
    by (simp add: comp_def)
  have w: "writeSamples view offset cs = Inr ?out"
    using writeSamples_store [OF assms] unfolding d .
  have ld: "length ?data = 2 * length cs"
    using length_concat_bytes16 [of "map (\<lambda>c. ToInt16 (scaledSample c)) cs"] by simp
  have lt: "length (take offset view) = offset"
    using assms by simp
  have 1: "length ?out = length view"
    using assms ld by simp
  have 2: "take offset ?out = take offset view"
    using lt by simp
  have 3: "drop (offset + 2 * length cs) ?out = drop (offset + 2 * length cs) view"
    using lt ld by simp
  have "take (2 * length cs) (drop offset ?out) = ?data"
    using lt ld by simp
  then have "int16_elements (take (2 * length cs) (drop offset ?out)) =
      map (\<lambda>c. ToInt16 (scaledSample c)) cs"
    using int16_elements_bytes16 [of "map (\<lambda>c. ToInt16 (scaledSample c)) cs"] by simp
  then have 4: "map sint (int16_elements (take (2 * length cs) (drop offset ?out))) =
         map (\<lambda>c. case c of
                Num r \<Rightarrow> truncate_rat (let s = max (- 1) (min 1 r)
                                        in if s < 0 then s * 32768 else s * 32767)
              | PosInf \<Rightarrow> 32767 | NegInf \<Rightarrow> - 32768 | NaN \<Rightarrow> 0) cs"
    by (simp add: stored_value comp_def)
  have 5: "- 32768 \<le> truncate_rat (let s = max (- 1) (min 1 r) in if s < 0 then s * 32768 else s * 32767)
            \<and> truncate_rat (let s = max (- 1) (min 1 r) in if s < 0 then s * 32768 else s * 32767) \<le> 32767"
    for r :: rat
    using scaled_range [of r] by (simp add: Let_def)
  have 6: "\<forall>r::rat. - 32768 \<le> truncate_rat (let s = max (- 1) (min 1 r) in if s < 0 then s * 32768 else s * 32767)
            \<and> truncate_rat (let s = max (- 1) (min 1 r) in if s < 0 then s * 32768 else s * 32767) \<le> 32767"
    using 5 by (rule allI)
  have 7: "\<forall>r::rat. 1 \<le> r \<longrightarrow> truncate_rat (let s = max (- 1) (min 1 r)
                                        in if s < 0 then s * 32768 else s * 32767) = 32767"
    using clamp_extremes(1) by (intro allI impI)
  have 8: "\<forall>r::rat. r \<le> - 1 \<longrightarrow> truncate_rat (let s = max (- 1) (min 1 r)
                                        in if s < 0 then s * 32768 else s * 32767) = - 32768"
    using clamp_extremes(2) by (intro allI impI)
  have 9: "atob b = Inr bs \<and> bs \<noteq> [] \<and> even (length bs) \<longrightarrow>
          (\<exists>blob. createAudioUrl atob b = Inr blob
             \<and> int16_elements (drop 44 (blob_bytes blob)) =
                 map (\<lambda>x. ToInt16 (scaledSample (Num (of_int (sint x) / 32768))))
                   (int16_elements (map of_nat bs)))"
  proof
    assume h: "atob b = Inr bs \<and> bs \<noteq> [] \<and> even (length bs)"
    let ?ws = "map (\<lambda>x. ToInt16 (scaledSample (Num (of_int (sint x) / 32768))))
                   (int16_elements (map of_nat bs))"
    let ?blob = "\<lparr>blob_bytes = spec_wav_header 24000 (length bs) @ concat (map (\<lambda>w. bytes16 w True) ?ws),
          blob_type = ''audio/wav''\<rparr>"
    have e: "concat (map (\<lambda>x. bytes16 (ToInt16 (scaledSample (Num (of_int (sint x) / 32768)))) True)
                     (int16_elements (map of_nat bs))) = concat (map (\<lambda>w. bytes16 w True) ?ws)"
      by (simp add: comp_def del: of_int_sint)
    have c: "createAudioUrl atob b = Inr ?blob"
      using createAudioUrl_bytes [of atob b bs] h unfolding e by blast
    have "int16_elements (drop 44 (blob_bytes ?blob)) = ?ws"
      using int16_elements_bytes16 [of ?ws] by (simp add: length_spec_wav_header del: of_int_sint)
    with c show "\<exists>blob. createAudioUrl atob b = Inr blob
             \<and> int16_elements (drop 44 (blob_bytes blob)) = ?ws"
      by (intro exI [of _ ?blob] conjI)
  qed
  show ?thesis
    by (rule exI [of _ ?out]) (intro conjI w 1 2 3 4 6 7 8 9)
qed

text \<open>
  C5, witness: the loop on the samples \<open>3/2\<close>, \<open>-7/4\<close> and \<open>+Infinity\<close> at offset 2 of an
  8-byte buffer, and the data chunk for the four samples of the end-to-end scenario.
\<close>

theorem quantization_clamps_witness:
  "(\<exists>out. writeSamples (replicate 8 0) 2 [Num (3 / 2), Num (- 7 / 4), PosInf] = Inr out
      \<and> map sint (int16_elements (take 6 (drop 2 out))) = [32767, - 32768, 32767])
   \<and> (\<exists>blob. createAudioUrl (const_atob [0, 0, 0, 64, 0, 192, 255, 127]) ''AAAAQADA/38='' = Inr blob
      \<and> int16_elements (drop 44 (blob_bytes blob)) = [0, 16383, - 16384, 32766])"
proof -
  have fit: "2 + 2 * length [Num (3 / 2), Num (- 7 / 4), PosInf] \<le> length (replicate 8 (0 :: 8 word))"
    by simp
  from quantization_clamps [OF fit, of "const_atob [0, 0, 0, 64, 0, 192, 255, 127]"
      "''AAAAQADA/38=''" "[0, 0, 0, 64, 0, 192, 255, 127]"]
  show ?thesis
  proof (elim exE conjE)
  fix out
  assume o: "writeSamples (replicate 8 0) 2 [Num (3 / 2), Num (- 7 / 4), PosInf] = Inr out"
    and m: "map sint (int16_elements (take (2 * length [Num (3 / 2), Num (- 7 / 4), PosInf]) (drop 2 out))) =
         map (\<lambda>c. case c of
                Num r \<Rightarrow> truncate_rat (let s = max (- 1) (min 1 r)
                                        in if s < 0 then s * 32768 else s * 32767)
              | PosInf \<Rightarrow> 32767 | NegInf \<Rightarrow> - 32768 | NaN \<Rightarrow> 0) [Num (3 / 2), Num (- 7 / 4), PosInf]"
    and hi: "\<forall>r::rat. 1 \<le> r \<longrightarrow> truncate_rat (let s = max (- 1) (min 1 r)
                                        in if s < 0 then s * 32768 else s * 32767) = 32767"
    and lo: "\<forall>r::rat. r \<le> - 1 \<longrightarrow> truncate_rat (let s = max (- 1) (min 1 r)
                                        in if s < 0 then s * 32768 else s * 32767) = - 32768"
    and cu: "const_atob [0, 0, 0, 64, 0, 192, 255, 127] ''AAAAQADA/38='' = Inr [0, 0, 0, 64, 0, 192, 255, 127]
          \<and> [0, 0, 0, 64, 0, 192, 255, 127] \<noteq> [] \<and> even (length [0, 0, 0, 64, 0, 192, 255, 127 :: nat]) \<longrightarrow>
          (\<exists>blob. createAudioUrl (const_atob [0, 0, 0, 64, 0, 192, 255, 127]) ''AAAAQADA/38='' = Inr blob
             \<and> int16_elements (drop 44 (blob_bytes blob)) =
                 map (\<lambda>x. ToInt16 (scaledSample (Num (of_int (sint x) / 32768))))
                   (int16_elements (map of_nat [0, 0, 0, 64, 0, 192, 255, 127])))"
  have a: "(1::rat) \<le> 3 / 2" and b: "(- 7 / 4 :: rat) \<le> - 1"
    by simp_all
  have "map sint (int16_elements (take 6 (drop 2 out))) = [32767, - 32768, 32767]"
    using m hi [rule_format, OF a] lo [rule_format, OF b] by simp
  with o have 1: "\<exists>out. writeSamples (replicate 8 0) 2 [Num (3 / 2), Num (- 7 / 4), PosInf] = Inr out
      \<and> map sint (int16_elements (take 6 (drop 2 out))) = [32767, - 32768, 32767]"
    by (intro exI [of _ out] conjI)
  have "\<exists>blob. createAudioUrl (const_atob [0, 0, 0, 64, 0, 192, 255, 127]) ''AAAAQADA/38='' = Inr blob
             \<and> int16_elements (drop 44 (blob_bytes blob)) =
                 map (\<lambda>x. ToInt16 (scaledSample (Num (of_int (sint x) / 32768))))
                   (int16_elements (map of_nat [0, 0, 0, 64, 0, 192, 255, 127]))"
    using cu by (simp add: const_atob_def del: of_int_sint)
  then obtain blob where
    c: "createAudioUrl (const_atob [0, 0, 0, 64, 0, 192, 255, 127]) ''AAAAQADA/38='' = Inr blob"
    and e: "int16_elements (drop 44 (blob_bytes blob)) =
                 map (\<lambda>x. ToInt16 (scaledSample (Num (of_int (sint x) / 32768))))
                   (int16_elements (map of_nat [0, 0, 0, 64, 0, 192, 255, 127]))"
    by (elim exE conjE)
  have "int16_elements (drop 44 (blob_bytes blob)) = [0, 16383, - 16384, 32766]"
    unfolding e scaledSample_decoded by (simp add: requantized_def)
  with c have 2: "\<exists>blob. createAudioUrl (const_atob [0, 0, 0, 64, 0, 192, 255, 127]) ''AAAAQADA/38='' = Inr blob
      \<and> int16_elements (drop 44 (blob_bytes blob)) = [0, 16383, - 16384, 32766]"
    by (intro exI [of _ blob] conjI)
  show ?thesis
    using 1 2 by (rule conjI)
  qed
qed

section \<open>Binary64 subtraction: auxiliary facts\<close>

lemma floor_log2_bounds:
  assumes "0 < x"
  shows "power_int 2 (floor_log2 x) \<le> x \<and> x < power_int 2 (floor_log2 x + 1)"
proof -
  obtain a b where ab: "quotient_of x = (a, b)" by (cases "quotient_of x")
  have bpos: "0 < b" using ab by (rule quotient_of_denom_pos)
  have x: "x = of_int a / of_int b" using ab by (rule quotient_of_div)
  have apos: "0 < a" using assms bpos unfolding x by (simp add: zero_less_divide_iff)
  define la where "la = floorlog 2 (nat a)"
  define lb where "lb = floorlog 2 (nat b)"
  have A: "2 ^ (la - 1) \<le> nat a \<and> nat a < 2 ^ la"
    unfolding la_def using apos by (intro floorlog_bounds) simp_all
  have B: "2 ^ (lb - 1) \<le> nat b \<and> nat b < 2 ^ lb"
    unfolding lb_def using bpos by (intro floorlog_bounds) simp_all
  have la1: "1 \<le> la" using A apos by (cases la) simp_all
  have lb1: "1 \<le> lb" using B bpos by (cases lb) simp_all
  have a_lo: "(2::rat) ^ (la - 1) \<le> of_int a" and a_hi: "of_int a < (2::rat) ^ la"
  proof -
    have "of_nat (2 ^ (la - 1)) \<le> (of_nat (nat a) :: rat)" using A by (simp only: of_nat_le_iff)
    then show "(2::rat) ^ (la - 1) \<le> of_int a" using apos by simp
    have "(of_nat (nat a) :: rat) < of_nat (2 ^ la)" using A by (simp only: of_nat_less_iff)
    then show "of_int a < (2::rat) ^ la" using apos by simp
  qed
  have b_lo: "(2::rat) ^ (lb - 1) \<le> of_int b" and b_hi: "of_int b < (2::rat) ^ lb"
  proof -
    have "of_nat (2 ^ (lb - 1)) \<le> (of_nat (nat b) :: rat)" using B by (simp only: of_nat_le_iff)
    then show "(2::rat) ^ (lb - 1) \<le> of_int b" using bpos by simp
    have "(of_nat (nat b) :: rat) < of_nat (2 ^ lb)" using B by (simp only: of_nat_less_iff)
    then show "of_int b < (2::rat) ^ lb" using bpos by simp
  qed
  define k where "k = int la - int lb"
  have pk: "power_int (2::rat) k = 2 ^ la / 2 ^ lb"
    unfolding k_def by (simp add: power_int_diff)
  have pk1: "power_int (2::rat) (k + 1) = 2 * 2 ^ la / 2 ^ lb"
    unfolding k_def by (simp add: power_int_add power_int_diff)
  have pkm: "power_int (2::rat) (k - 1) = 2 ^ la / (2 * 2 ^ lb)"
    unfolding k_def by (simp add: power_int_diff)
  have bq: "(0::rat) < of_int b" using bpos by simp
  have two_lb: "(2::rat) ^ lb = 2 * 2 ^ (lb - 1)" using lb1 by (cases lb) simp_all
  have two_la: "(2::rat) ^ la = 2 * 2 ^ (la - 1)" using la1 by (cases la) simp_all
  have hi: "x < power_int 2 (k + 1)"
  proof -
    have "of_int a * (2::rat) ^ lb < 2 ^ la * (2 * of_int b)"
    proof -
      have "of_int a * (2::rat) ^ lb < 2 ^ la * 2 ^ lb"
        using a_hi by simp
      also have "\<dots> = 2 ^ la * (2 * 2 ^ (lb - 1))" using two_lb by simp
      also have "\<dots> \<le> 2 ^ la * (2 * of_int b)" using b_lo by simp
      finally show ?thesis .
    qed
    then show ?thesis
      unfolding x pk1 using bq by (simp add: field_simps)
  qed
  have lo: "power_int 2 (k - 1) \<le> x"
  proof -
    have "(2::rat) ^ la * of_int b \<le> 2 ^ la * 2 ^ lb"
      using b_hi by simp
    also have "\<dots> = (2 * 2 ^ (la - 1)) * 2 ^ lb" using two_la by simp
    also have "\<dots> \<le> (2 * of_int a) * 2 ^ lb" using a_lo by simp
    finally have "(2::rat) ^ la * of_int b \<le> of_int a * (2 * 2 ^ lb)" by (simp add: mult_ac)
    then show ?thesis
      unfolding x pkm using bq by (simp add: field_simps)
  qed
  have fl: "floor_log2 x = (if power_int 2 k \<le> x then k else k - 1)"
    unfolding floor_log2_def Let_def ab k_def la_def lb_def by simp
  show ?thesis
  proof (cases "power_int 2 k \<le> x")
    case True
    then show ?thesis using hi fl by simp
  next
    case False
    then show ?thesis using lo fl by simp
  qed
qed

lemma round_half_even_le:
  assumes "r \<le> of_int m"
  shows "round_half_even r \<le> m"
proof (cases "r = of_int m")
  case True
  then show ?thesis by (simp add: round_half_even_def)
next
  case False
  with assms have "r < of_int m" by simp
  then have "\<lfloor>r\<rfloor> < m" by (simp add: floor_less_iff)
  then have "\<lfloor>r\<rfloor> + 1 \<le> m" by simp
  then show ?thesis
    by (simp add: round_half_even_def Let_def)
qed

lemma round_half_even_ge:
  assumes "of_int m \<le> r"
  shows "m \<le> round_half_even r"
proof -
  have "m \<le> \<lfloor>r\<rfloor>" using assms by (simp add: le_floor_iff)
  then show ?thesis
    by (simp add: round_half_even_def Let_def)
qed

lemma round_half_even_gt_even:
  assumes "even m"
  shows "m < round_half_even r \<longleftrightarrow> of_int m + 1 / 2 < r"
proof (cases "\<lfloor>r\<rfloor>" m rule: linorder_cases)
  case less
  then have "r < of_int m" by (simp add: floor_less_iff)
  moreover have "round_half_even r \<le> m"
    using \<open>r < of_int m\<close> by (intro round_half_even_le) simp
  ultimately show ?thesis by simp
next
  case equal
  have f: "r - of_int m < 1" "0 \<le> r - of_int m"
    using equal floor_correct [of r] by simp_all
  show ?thesis
    using assms equal f by (auto simp: round_half_even_def Let_def)
next
  case greater
  then have "m + 1 \<le> \<lfloor>r\<rfloor>" by simp
  then have "of_int (m + 1) \<le> r" by (simp only: le_floor_iff)
  then have "of_int m + 1 / 2 < r" by simp
  moreover have "m + 1 \<le> round_half_even r"
    using \<open>of_int (m + 1) \<le> r\<close> by (rule round_half_even_ge)
  ultimately show ?thesis by simp
qed

lemma floor_log2_unique:
  assumes "0 < x" "power_int 2 k \<le> x" "x < power_int 2 (k + 1)"
  shows "floor_log2 x = k"
proof -
  have b: "power_int 2 (floor_log2 x) \<le> x" "x < power_int 2 (floor_log2 x + 1)"
    using floor_log2_bounds [OF assms(1)] by simp_all
  have "power_int (2::rat) (floor_log2 x) < power_int 2 (k + 1)"
    using b(1) assms(3) by simp
  then have 1: "floor_log2 x < k + 1"
    using power_int_increasing [of "k + 1" "floor_log2 x" "2::rat"] by (cases "floor_log2 x < k + 1") simp_all
  have "power_int (2::rat) k < power_int 2 (floor_log2 x + 1)"
    using b(2) assms(2) by simp
  then have 2: "k < floor_log2 x + 1"
    using power_int_increasing [of "floor_log2 x + 1" k "2::rat"] by (cases "k < floor_log2 x + 1") simp_all
  show ?thesis using 1 2 by simp
qed

lemma round_binary64_pos_small:
  assumes "0 < d" "d < 1 / 2"
  shows "\<exists>y. round_binary64_pos d = Num y \<and> 0 \<le> y \<and> y \<le> 1 / 2"
proof -
  define e where "e = max (floor_log2 d) (- 1022)"
  define q :: rat where "q = power_int 2 (e - 52)"
  define n where "n = round_half_even (d / q)"
  have b: "power_int 2 (floor_log2 d) \<le> d"
    using floor_log2_bounds [OF assms(1)] by simp
  have "power_int (2::rat) (floor_log2 d) < power_int 2 (- 1)"
    using b assms(2) by (simp add: power_int_minus)
  then have "floor_log2 d < - 1"
    using power_int_increasing [of "- 1" "floor_log2 d" "2::rat"]
    by (cases "floor_log2 d < - 1") simp_all
  then have e: "e \<le> - 2"
    by (simp add: e_def)
  have qpos: "0 < q" by (simp add: q_def)
  define M :: int where "M = 2 ^ nat (51 - e)"
  have "(of_int M :: rat) = power_int 2 (51 - e)"
    using e by (simp add: M_def power_int_def)
  then have Mq: "of_int M * q = 1 / 2"
    unfolding q_def by (simp add: power_int_add [symmetric] power_int_minus)
  have "d / q \<le> of_int M"
    using assms(2) Mq qpos by (simp add: field_simps)
  then have n_le: "n \<le> M"
    unfolding n_def by (rule round_half_even_le)
  have "of_int 0 \<le> d / q" using assms(1) qpos by simp
  then have n_ge: "0 \<le> n"
    unfolding n_def by (rule round_half_even_ge)
  have y_le: "of_int n * q \<le> 1 / 2"
  proof -
    have "of_int n * q \<le> of_int M * q"
      using n_le qpos by (simp add: mult_right_mono)
    then show ?thesis using Mq by simp
  qed
  have y_ge: "0 \<le> of_int n * q"
    using n_ge qpos by simp
  have big: "(1::rat) \<le> power_int 2 1024"
    by simp
  have "\<not> power_int 2 1024 \<le> of_int n * q"
    using y_le big by linarith
  then have "round_binary64_pos d = Num (of_int n * q)"
    unfolding round_binary64_pos_def Let_def e_def [symmetric] q_def [symmetric] n_def [symmetric]
    by (simp only: if_False)
  then show ?thesis using y_le y_ge by blast
qed

lemma round_binary64_pos_binade:
  assumes "1 / 2 \<le> d" "d < 1"
  shows "\<exists>y. round_binary64_pos d = Num y \<and> 0 \<le> y \<and> (1 / 2 < y \<longleftrightarrow> 1 / 2 + 1 / 2 ^ 54 < d)"
proof -
  have dpos: "0 < d" using assms(1) by simp
  have "floor_log2 d = - 1"
    using dpos assms by (intro floor_log2_unique) (simp_all add: power_int_minus)
  then have e: "max (floor_log2 d) (- 1022) = - 1" by simp
  define n where "n = round_half_even (d * 2 ^ 53)"
  have q: "power_int (2::rat) (- 1 - 52) = 1 / 2 ^ 53"
    by (simp add: power_int_minus_divide)
  have r: "round_binary64_pos d =
      (if power_int 2 1024 \<le> of_int n * (1 / 2 ^ 53 :: rat) then PosInf else Num (of_int n * (1 / 2 ^ 53)))"
    unfolding round_binary64_pos_def Let_def e q n_def by simp
  have "d * 2 ^ 53 \<le> of_int (2 ^ 53)" using assms(2) by simp
  then have n_le: "n \<le> 2 ^ 53" unfolding n_def by (rule round_half_even_le)
  have "of_int 0 \<le> d * 2 ^ 53" using dpos by simp
  then have n_ge: "0 \<le> n" unfolding n_def by (rule round_half_even_ge)
  have "(of_int n :: rat) \<le> 2 ^ 53" using n_le by (metis of_int_le_iff of_int_numeral of_int_power)
  then have y_le: "of_int n * (1 / 2 ^ 53 :: rat) \<le> 1"
    by (simp add: field_simps)
  have "\<not> power_int 2 1024 \<le> of_int n * (1 / 2 ^ 53 :: rat)"
    using y_le by (simp add: not_le)
  then have r': "round_binary64_pos d = Num (of_int n * (1 / 2 ^ 53))"
    unfolding r by (simp only: if_False)
  have "even (2 ^ 52 :: int)" by simp
  then have g: "2 ^ 52 < n \<longleftrightarrow> of_int (2 ^ 52) + 1 / 2 < d * 2 ^ 53"
    unfolding n_def by (rule round_half_even_gt_even)
  have 1: "(1 / 2 < of_int n * (1 / 2 ^ 53 :: rat)) = (2 ^ 52 < n)"
  proof -
    have "(1 / 2 < of_int n * (1 / 2 ^ 53 :: rat)) = ((2 ^ 52 :: rat) < of_int n)"
      by (simp add: field_simps)
    also have "\<dots> = (of_int (2 ^ 52) < (of_int n :: rat))" by simp
    also have "\<dots> = (2 ^ 52 < n)" by (simp only: of_int_less_iff)
    finally show ?thesis .
  qed
  have 2: "(of_int (2 ^ 52) + 1 / 2 < d * 2 ^ 53) = (1 / 2 + 1 / 2 ^ 54 < d)"
    by (simp add: field_simps)
  have y_ge: "0 \<le> of_int n * (1 / 2 ^ 53 :: rat)" using n_ge by simp
  show ?thesis
    using r' 1 2 g y_ge by blast
qed

lemma round_binary64_pos_large:
  assumes "1 \<le> d"
  shows "round_binary64_pos d = PosInf \<or> (\<exists>y. round_binary64_pos d = Num y \<and> 1 \<le> y)"
proof -
  have dpos: "0 < d" using assms by simp
  define e where "e = max (floor_log2 d) (- 1022)"
  define q :: rat where "q = power_int 2 (e - 52)"
  define n where "n = round_half_even (d / q)"
  have b: "power_int 2 (floor_log2 d) \<le> d" "d < power_int 2 (floor_log2 d + 1)"
    using floor_log2_bounds [OF dpos] by simp_all
  have "power_int (2::rat) 0 < power_int 2 (floor_log2 d + 1)"
    using b(2) assms by simp
  then have "0 < floor_log2 d + 1"
    using power_int_increasing [of "floor_log2 d + 1" 0 "2::rat"]
    by (cases "0 < floor_log2 d + 1") simp_all
  then have fl: "0 \<le> floor_log2 d" by simp
  then have e: "e = floor_log2 d" by (simp add: e_def)
  have qpos: "0 < q" by (simp add: q_def)
  have pe: "power_int (2::rat) e = of_int (2 ^ 52) * q"
    unfolding q_def by (simp add: power_int_diff)
  have "of_int (2 ^ 52) \<le> d / q"
    using b(1) pe qpos unfolding e by (simp add: field_simps)
  then have "2 ^ 52 \<le> n"
    unfolding n_def by (rule round_half_even_ge)
  then have "of_int (2 ^ 52) * q \<le> of_int n * q"
    using qpos by (simp only: mult_le_cancel_right_pos of_int_le_iff)
  moreover have "(1::rat) \<le> power_int 2 e"
    using fl e power_int_increasing [of 0 e "2::rat"] by simp
  ultimately have y: "1 \<le> of_int n * q"
    using pe by linarith
  have "round_binary64_pos d = (if power_int 2 1024 \<le> of_int n * q then PosInf else Num (of_int n * q))"
    unfolding round_binary64_pos_def Let_def e_def [symmetric] q_def [symmetric] n_def [symmetric] ..
  then show ?thesis
    using y by (cases "power_int 2 1024 \<le> of_int n * q") simp_all
qed

lemma round_binary64_pos_gt_half:
  assumes "0 < d"
  shows "lessThan_num (Num (1 / 2)) (round_binary64_pos d) \<longleftrightarrow> 1 / 2 + 1 / 2 ^ 54 < d"
    and "Math_abs (round_binary64_pos d) = round_binary64_pos d"
proof -
  consider "d < 1 / 2" | "1 / 2 \<le> d" "d < 1" | "1 \<le> d"
    by linarith
  then have "(lessThan_num (Num (1 / 2)) (round_binary64_pos d) \<longleftrightarrow> 1 / 2 + 1 / 2 ^ 54 < d)
      \<and> Math_abs (round_binary64_pos d) = round_binary64_pos d"
  proof cases
    case 1
    then obtain y where "round_binary64_pos d = Num y" "0 \<le> y" "y \<le> 1 / 2"
      using round_binary64_pos_small [OF assms] by blast
    moreover have "\<not> 1 / 2 + 1 / 2 ^ 54 < d" using 1 by simp
    ultimately show ?thesis by simp
  next
    case 2
    then obtain y where "round_binary64_pos d = Num y" "0 \<le> y"
      "1 / 2 < y \<longleftrightarrow> 1 / 2 + 1 / 2 ^ 54 < d"
      using round_binary64_pos_binade by blast
    then show ?thesis by simp
  next
    case 3
    have d: "1 / 2 + 1 / 2 ^ 54 < d" using 3 by simp
    from round_binary64_pos_large [OF 3] show ?thesis
    proof
      assume "round_binary64_pos d = PosInf"
      then show ?thesis using d by simp
    next
      assume "\<exists>y. round_binary64_pos d = Num y \<and> 1 \<le> y"
      then obtain y where "round_binary64_pos d = Num y" "1 \<le> y" by blast
      then show ?thesis using d by simp
    qed
  qed
  then show "lessThan_num (Num (1 / 2)) (round_binary64_pos d) \<longleftrightarrow> 1 / 2 + 1 / 2 ^ 54 < d"
    and "Math_abs (round_binary64_pos d) = round_binary64_pos d"
    by simp_all
qed

lemma Math_abs_negate [simp]: "Math_abs (negate_num x) = Math_abs x"
  by (cases x) simp_all

lemma binary64_difference_exceeds_half:
  "lessThan_num (Num (1 / 2)) (Math_abs (minus_binary64 a v)) \<longleftrightarrow> 1 / 2 + 1 / 2 ^ 54 < \<bar>a - v\<bar>"
proof -
  consider "a - v = 0" | "0 < a - v" | "0 < - (a - v)"
    by linarith
  then show ?thesis
  proof cases
    case 1
    then show ?thesis by (simp add: minus_binary64_def round_binary64_def)
  next
    case 2
    then show ?thesis
      using round_binary64_pos_gt_half [OF 2]
      by (simp add: minus_binary64_def round_binary64_def)
  next
    case 3
    then have "\<not> 0 < a - v" "a - v \<noteq> 0" by simp_all
    then show ?thesis
      using round_binary64_pos_gt_half [OF 3] 3
      by (simp add: minus_binary64_def round_binary64_def abs_if)
  qed
qed

lemma round_half_even_of_int [simp]: "round_half_even (of_int m) = m"
  by (simp add: round_half_even_def)

lemma round_binary64_exact:
  assumes "x = of_int m * power_int 2 (k - 52)" "- 1022 \<le> k" "k < 1024"
    "2 ^ 52 \<le> m" "m < 2 ^ 53"
  shows "round_binary64 x = Num x"
proof -
  have q: "(0::rat) < power_int 2 (k - 52)"
    by simp
  have k: "power_int (2::rat) k = 2 ^ 52 * power_int 2 (k - 52)"
    "power_int (2::rat) (k + 1) = 2 ^ 53 * power_int 2 (k - 52)"
    by (simp_all add: power_int_diff power_int_add)
  have "of_int ((2::int) ^ 52) \<le> (of_int m :: rat)" "(of_int m :: rat) < of_int ((2::int) ^ 53)"
    using assms(4,5) by (simp_all only: of_int_le_iff of_int_less_iff)
  then have m: "(2::rat) ^ 52 \<le> of_int m" "of_int m < (2::rat) ^ 53"
    by simp_all
  have b: "power_int 2 k \<le> x" "x < power_int 2 (k + 1)"
    unfolding k assms(1) using q m by (simp_all only: mult_le_cancel_right_pos mult_less_cancel_right_pos)
  have xpos: "0 < x"
    using b(1) by (rule less_le_trans [rotated]) simp
  have f: "floor_log2 x = k"
    using xpos b by (rule floor_log2_unique)
  have "power_int (2::rat) (k + 1) \<le> power_int 2 1024"
    using assms(3) by (intro power_int_increasing) simp_all
  then have "x < power_int 2 1024"
    using b(2) by (rule less_le_trans [rotated])
  then have big: "\<not> power_int 2 1024 \<le> x"
    by (simp only: not_le)
  have "x / power_int 2 (k - 52) = of_int m"
    unfolding assms(1) using q by simp
  then have r: "of_int (round_half_even (x / power_int 2 (k - 52))) * power_int 2 (k - 52) = x"
    unfolding assms(1) by (simp only: round_half_even_of_int)
  have e: "max k (- 1022) = k"
    using assms(2) by simp
  have "round_binary64_pos x = Num x"
    unfolding round_binary64_pos_def f e Let_def r using big by (simp only: if_False)
  then show ?thesis
    using xpos by (simp add: round_binary64_def)
qed

section \<open>The preview controller: auxiliary facts\<close>

lemma sync_inv_unmounted: "sync_inv unmounted"
  by (simp add: sync_inv_def unmounted_def listeners_of_def sync_selected_def)

lemma drop_catch:
  "drop_promise (catch_console_error (play_promise outcome) message s) =
     (case outcome of Started \<Rightarrow> s | Rejected e \<Rightarrow> s\<lparr>console := console s @ [message @ '' '' @ e]\<rparr>)"
  by (simp add: drop_promise_def catch_console_error_def play_promise_def split: play_outcome.splits)

lemma audio_play_catch_eq:
  "audio_play_catch a outcome message s =
     (case audioEls s a of None \<Rightarrow> s
      | Some audioEl \<Rightarrow>
          (case outcome of
             Started \<Rightarrow> s\<lparr>audioEls := (audioEls s)(a \<mapsto> audioEl\<lparr>a_paused := False\<rparr>)\<rparr>
           | Rejected e \<Rightarrow> s\<lparr>console := console s @ [message @ '' '' @ e]\<rparr>))"
  by (auto simp: audio_play_catch_def drop_catch play_paused_def map_upd_triv split: option.splits play_outcome.splits)

lemma video_play_catch_eq:
  "video_play_catch outcome message s =
     (case videoRef s of None \<Rightarrow> s
      | Some videoEl \<Rightarrow>
          (case outcome of
             Started \<Rightarrow> s\<lparr>videoRef := Some (videoEl\<lparr>v_paused := False\<rparr>)\<rparr>
           | Rejected e \<Rightarrow> s\<lparr>console := console s @ [message @ '' '' @ e]\<rparr>))"
  by (auto simp: video_play_catch_def drop_catch play_paused_def split: option.splits play_outcome.splits)

lemma binding_of_audio_play_catch [simp]:
  "binding_of (audio_play_catch a outcome message s) = binding_of s"
  by (auto simp: audio_play_catch_eq binding_of_def fun_eq_iff split: option.splits play_outcome.splits)

lemma binding_of_video_play_catch [simp]:
  "binding_of (video_play_catch outcome message s) = binding_of s"
  by (auto simp: video_play_catch_eq binding_of_def fun_eq_iff split: option.splits play_outcome.splits)

lemma binding_of_audio_pause [simp]: "binding_of (audio_pause a s) = binding_of s"
  by (auto simp: audio_pause_def binding_of_def fun_eq_iff split: option.splits)

lemma binding_of_audio_set_currentTime [simp]:
  "binding_of (audio_set_currentTime a t s) = binding_of s"
  by (auto simp: audio_set_currentTime_def binding_of_def fun_eq_iff split: option.splits)

lemma binding_of_call_listener [simp]: "binding_of (call_listener h outcome s) = binding_of s"
  by (cases h) (auto split: option.splits)




lemma binding_of_fields [simp]:
  "videoRef (binding_of s) = map_option (\<lambda>videoEl. videoEl\<lparr>v_paused := True, v_currentTime := 0\<rparr>) (videoRef s)"
  "audioRef (binding_of s) = audioRef s"
  "effectRuns (binding_of s) = effectRuns s"
  "syncCleanup (binding_of s) = syncCleanup s"
  "syncDeps (binding_of s) = syncDeps s"
  "bindingDeps (binding_of s) = bindingDeps s"
  "unhandledRejections (binding_of s) = unhandledRejections s"
  by (simp_all add: binding_of_def)

lemma binding_of_idem [simp]: "binding_of (binding_of s) = binding_of s"
  by (auto simp: binding_of_def fun_eq_iff option.map_comp comp_def intro: option.map_cong
      split: option.splits)

lemma binding_of_syncCleanup_update [simp]:
  "binding_of (s\<lparr>syncCleanup := c\<rparr>) = (binding_of s)\<lparr>syncCleanup := c\<rparr>"
  by (simp add: binding_of_def)

lemma binding_of_syncDeps_update [simp]:
  "binding_of (s\<lparr>syncDeps := d\<rparr>) = (binding_of s)\<lparr>syncDeps := d\<rparr>"
  by (simp add: binding_of_def)






lemma renderDOM_frame [simp]:
  "listeners_of (renderDOM p s) = listeners_of s"
  "syncCleanup (renderDOM p s) = syncCleanup s"
  "syncDeps (renderDOM p s) = syncDeps s"
  "bindingDeps (renderDOM p s) = bindingDeps s"
  "unhandledRejections (renderDOM p s) = unhandledRejections s"
  "videoRef (renderDOM p s) \<noteq> None"
  by (auto simp: renderDOM_def listeners_of_def Let_def split: option.splits)

lemma renderDOM_audioRef:
  "(audioRef (renderDOM p s) \<noteq> None) = (p_source p = ANIMATION \<and> truthy (p_currentAudioUrl p))"
  by (auto simp: renderDOM_def Let_def split: option.splits)

lemma renderDOM_audioRef_keep:
  "audioRef s = Some a \<Longrightarrow> p_source p = ANIMATION \<Longrightarrow> truthy (p_currentAudioUrl p) \<Longrightarrow>
   audioRef (renderDOM p s) = Some a"
  by (auto simp: renderDOM_def Let_def split: option.splits)

lemma renderDOM_audioEls:
  "audioEls s a \<noteq> None \<Longrightarrow> audioEls (renderDOM p s) a \<noteq> None"
  by (auto simp: renderDOM_def Let_def split: option.splits)

lemma renderDOM_audio_exists:
  "(case audioRef s of None \<Rightarrow> True | Some a \<Rightarrow> audioEls s a \<noteq> None) \<Longrightarrow>
   (case audioRef (renderDOM p s) of None \<Rightarrow> True | Some a \<Rightarrow> audioEls (renderDOM p s) a \<noteq> None)"
  by (auto simp: renderDOM_def Let_def split: option.splits)

lemma syncChanged_renderDOM [simp]: "syncChanged p (renderDOM p s) = syncChanged p s"
  by (simp add: syncChanged_def)

lemma removeEventListener_registrations:
  "v_listeners videoEl = registrations c \<Longrightarrow>
   v_listeners (removeEventListener ''timeupdate'' (HandleSeek (fst c) (snd c))
       (removeEventListener ''pause'' (HandlePause (fst c) (snd c))
         (removeEventListener ''play'' (HandlePlay (fst c) (snd c)) videoEl))) = []"
  by (simp add: removeEventListener_def registrations_def)

lemma audio_frames [simp]:
  "videoRef (audio_pause a s) = videoRef s"
  "videoRef (audio_set_currentTime a t s) = videoRef s"
  "videoRef (audio_play_catch a outcome m s) = videoRef s"
  "audioRef (audio_pause a s) = audioRef s"
  "audioRef (audio_set_currentTime a t s) = audioRef s"
  "audioRef (audio_play_catch a outcome m s) = audioRef s"
  "syncCleanup (audio_pause a s) = syncCleanup s"
  "syncCleanup (audio_set_currentTime a t s) = syncCleanup s"
  "syncCleanup (audio_play_catch a outcome m s) = syncCleanup s"
  "syncDeps (audio_pause a s) = syncDeps s"
  "syncDeps (audio_set_currentTime a t s) = syncDeps s"
  "syncDeps (audio_play_catch a outcome m s) = syncDeps s"
  "unhandledRejections (audio_pause a s) = unhandledRejections s"
  "unhandledRejections (audio_set_currentTime a t s) = unhandledRejections s"
  "unhandledRejections (audio_play_catch a outcome m s) = unhandledRejections s"
  "effectRuns (audio_play_catch a outcome m s) = effectRuns s"
  by (auto simp: audio_pause_def audio_set_currentTime_def audio_play_catch_eq
      split: option.splits play_outcome.splits)

lemma audio_exists_frames [simp]:
  "(audioEls (audio_pause a s) b = None) = (audioEls s b = None)"
  "(audioEls (audio_set_currentTime a t s) b = None) = (audioEls s b = None)"
  "(audioEls (audio_play_catch a outcome m s) b = None) = (audioEls s b = None)"
  by (auto simp: audio_pause_def audio_set_currentTime_def audio_play_catch_eq
      split: option.splits play_outcome.splits)

lemma listeners_of_audio [simp]:
  "listeners_of (audio_pause a s) = listeners_of s"
  "listeners_of (audio_set_currentTime a t s) = listeners_of s"
  "listeners_of (audio_play_catch a outcome m s) = listeners_of s"
  by (simp_all add: listeners_of_def)

lemma audio_reset:
  "audioEls s a \<noteq> None \<Longrightarrow>
   \<exists>audioEl. audioEls (audio_set_currentTime a 0 (audio_pause a s)) a = Some audioEl
      \<and> a_paused audioEl \<and> a_currentTime audioEl = 0"
  by (auto simp: audio_pause_def audio_set_currentTime_def)

lemma call_listener_frames [simp]:
  "videoRef (call_listener h outcome s) = videoRef s"
  "audioRef (call_listener h outcome s) = audioRef s"
  "syncCleanup (call_listener h outcome s) = syncCleanup s"
  "syncDeps (call_listener h outcome s) = syncDeps s"
  "unhandledRejections (call_listener h outcome s) = unhandledRejections s"
  "(audioEls (call_listener h outcome s) b = None) = (audioEls s b = None)"
  by (cases h; simp split: option.splits)+

lemma listeners_of_call_listener [simp]: "listeners_of (call_listener h outcome s) = listeners_of s"
  by (simp add: listeners_of_def)

lemma bindingEffect_frames [simp]:
  "listeners_of (bindingEffect p outcome s) = listeners_of s"
  "audioRef (bindingEffect p outcome s) = audioRef s"
  "audioEls (bindingEffect p outcome s) = audioEls s"
  "syncCleanup (bindingEffect p outcome s) = syncCleanup s"
  "syncDeps (bindingEffect p outcome s) = syncDeps s"
  "unhandledRejections (bindingEffect p outcome s) = unhandledRejections s"
  "(videoRef (bindingEffect p outcome s) = None) = (videoRef s = None)"
  by (auto simp: bindingEffect_def video_play_catch_eq listeners_of_def Let_def
      split: option.splits play_outcome.splits)

lemma listeners_of_updates [simp]:
  "listeners_of (s\<lparr>bindingDeps := d\<rparr>) = listeners_of s"
  "listeners_of (s\<lparr>syncDeps := d'\<rparr>) = listeners_of s"
  "listeners_of (s\<lparr>syncCleanup := c\<rparr>) = listeners_of s"
  by (simp_all add: listeners_of_def)

lemma sync_inv_bindingEffect:
  "sync_inv (bindingEffect p outcome (s\<lparr>bindingDeps := d\<rparr>)) = sync_inv s"
  by (simp add: sync_inv_def cong: option.case_cong)

lemma sync_inv_renderDOM_unchanged:
  assumes "sync_inv s" "\<not> syncChanged p s"
  shows "sync_inv (renderDOM p s)"
proof -
  have d: "syncDeps s = Some (p_source p, p_currentAudioUrl p)"
    using assms(2) by (simp add: syncChanged_def)
  have sel: "sync_selected (syncDeps s) = (p_source p = ANIMATION \<and> truthy (p_currentAudioUrl p))"
    by (simp add: d sync_selected_def)
  have ex: "case audioRef (renderDOM p s) of None \<Rightarrow> True | Some a \<Rightarrow> audioEls (renderDOM p s) a \<noteq> None"
    using assms(1) by (intro renderDOM_audio_exists) (simp add: sync_inv_def)
  have keep: "case syncCleanup s of None \<Rightarrow> True | Some c \<Rightarrow> audioRef (renderDOM p s) = Some (snd c)"
  proof (cases "syncCleanup s")
    case None
    then show ?thesis by simp
  next
    case (Some c)
    then have "audioRef s = Some (snd c)" "sync_selected (syncDeps s)"
      using assms(1) by (auto simp: sync_inv_def)
    then show ?thesis
      using Some sel renderDOM_audioRef_keep [of s "snd c" p] by simp
  qed
  show ?thesis
    using assms(1) ex keep renderDOM_audioRef [of p s] sel
    by (simp add: sync_inv_def)
qed

lemma cleanupPhase_changed:
  assumes "sync_inv s" "syncChanged p s"
  shows "listeners_of (cleanupPhase p (renderDOM p s)) = []"
    and "syncCleanup (cleanupPhase p (renderDOM p s)) = None"
    and "videoRef (cleanupPhase p (renderDOM p s)) \<noteq> None"
    and "audioRef (cleanupPhase p (renderDOM p s)) = audioRef (renderDOM p s)"
    and "\<And>b. (audioEls (cleanupPhase p (renderDOM p s)) b = None) = (audioEls (renderDOM p s) b = None)"
    and "syncDeps (cleanupPhase p (renderDOM p s)) = syncDeps s"
    and "case syncCleanup s of None \<Rightarrow> True
         | Some c \<Rightarrow> \<exists>audioEl. audioEls (cleanupPhase p (renderDOM p s)) (snd c) = Some audioEl
              \<and> a_paused audioEl \<and> a_currentTime audioEl = 0"
proof -
  let ?r = "renderDOM p s"
  have l: "listeners_of ?r = (case syncCleanup s of None \<Rightarrow> [] | Some c \<Rightarrow> registrations c)"
    using assms(1) by (simp add: sync_inv_def)
  obtain videoEl where v: "videoRef ?r = Some videoEl"
    using renderDOM_frame(6) [of p s] by blast
  show "listeners_of (cleanupPhase p ?r) = []"
    using assms(2) l v
    by (auto simp: cleanupPhase_def syncCleanup_run_def Let_def listeners_of_def
        removeEventListener_registrations split: option.splits)
  show "syncCleanup (cleanupPhase p ?r) = None"
    using assms(2) by (simp add: cleanupPhase_def split: option.splits)
  show "videoRef (cleanupPhase p ?r) \<noteq> None"
    using v by (simp add: cleanupPhase_def syncCleanup_run_def Let_def split: option.splits)
  show "audioRef (cleanupPhase p ?r) = audioRef ?r"
    by (simp add: cleanupPhase_def syncCleanup_run_def Let_def split: option.splits)
  show "\<And>b. (audioEls (cleanupPhase p ?r) b = None) = (audioEls ?r b = None)"
    by (simp add: cleanupPhase_def syncCleanup_run_def Let_def split: option.splits)
  show "syncDeps (cleanupPhase p ?r) = syncDeps s"
    by (simp add: cleanupPhase_def syncCleanup_run_def Let_def split: option.splits)
  show "case syncCleanup s of None \<Rightarrow> True
         | Some c \<Rightarrow> \<exists>audioEl. audioEls (cleanupPhase p ?r) (snd c) = Some audioEl
              \<and> a_paused audioEl \<and> a_currentTime audioEl = 0"
  proof (cases "syncCleanup s")
    case None
    then show ?thesis by simp
  next
    case (Some c)
    then have "audioEls s (snd c) \<noteq> None"
      using assms(1) by (auto simp: sync_inv_def split: option.splits)
    then have e: "audioEls ?r (snd c) \<noteq> None"
      by (rule renderDOM_audioEls)
    let ?u = "?r\<lparr>videoRef := map_option
                (\<lambda>videoEl. removeEventListener ''timeupdate'' (HandleSeek (fst c) (snd c))
                   (removeEventListener ''pause'' (HandlePause (fst c) (snd c))
                     (removeEventListener ''play'' (HandlePlay (fst c) (snd c)) videoEl))) (videoRef ?r)\<rparr>"
    have "audioEls ?u (snd c) \<noteq> None"
      using e by simp
    then have "\<exists>audioEl. audioEls (audio_set_currentTime (snd c) 0 (audio_pause (snd c) ?u)) (snd c) = Some audioEl
        \<and> a_paused audioEl \<and> a_currentTime audioEl = 0"
      by (rule audio_reset)
    then show ?thesis
      using Some assms(2)
      by (simp add: cleanupPhase_def syncCleanup_run_def Let_def)
  qed
qed

lemma addEventListener_fresh:
  "v_listeners videoEl = [] \<Longrightarrow>
   v_listeners (addEventListener ''timeupdate'' (HandleSeek i a)
       (addEventListener ''pause'' (HandlePause i a)
         (addEventListener ''play'' (HandlePlay i a) videoEl))) = registrations (i, a)"
  by (simp add: addEventListener_def registrations_def)

lemma syncEffect_installs:
  assumes "videoRef t = Some videoEl" "audioRef t = Some a" "p_source p = ANIMATION"
  shows "syncEffect p outcome t =
     (let i = effectRuns t;
          v = addEventListener ''timeupdate'' (HandleSeek i a)
                (addEventListener ''pause'' (HandlePause i a)
                  (addEventListener ''play'' (HandlePlay i a) videoEl));
          s = t\<lparr>videoRef := Some v, effectRuns := i + 1\<rparr>;
          s = (if \<not> v_paused v then call_listener (HandlePlay i a) outcome s else s)
      in s\<lparr>syncCleanup := Some (i, a)\<rparr>)"
  using assms by (simp add: syncEffect_def Let_def del: call_listener.simps)

lemma syncEffect_installed:
  assumes "videoRef t = Some videoEl" "v_listeners videoEl = []" "audioRef t = Some a"
    "p_source p = ANIMATION"
  shows "listeners_of (syncEffect p outcome t) = registrations (effectRuns t, a)"
    and "syncCleanup (syncEffect p outcome t) = Some (effectRuns t, a)"
    and "audioRef (syncEffect p outcome t) = Some a"
    and "syncDeps (syncEffect p outcome t) = syncDeps t"
    and "(audioEls (syncEffect p outcome t) b = None) = (audioEls t b = None)"
  unfolding syncEffect_installs [OF assms(1,3,4)]
  using assms(3)
  by (simp_all add: Let_def listeners_of_def addEventListener_fresh [OF assms(2)]
      del: call_listener.simps)

lemma sync_inv_syncEffect:
  assumes l: "listeners_of t = []"
    and v: "videoRef t \<noteq> None"
    and sel: "(audioRef t \<noteq> None) = (p_source p = ANIMATION \<and> truthy (p_currentAudioUrl p))"
    and ex: "case audioRef t of None \<Rightarrow> True | Some a \<Rightarrow> audioEls t a \<noteq> None"
  shows "sync_inv (syncEffect p outcome (t\<lparr>syncDeps := Some (p_source p, p_currentAudioUrl p)\<rparr>))"
proof (cases "audioRef t")
  case None
  then have "syncEffect p outcome (t\<lparr>syncDeps := Some (p_source p, p_currentAudioUrl p)\<rparr>) =
      t\<lparr>syncDeps := Some (p_source p, p_currentAudioUrl p), syncCleanup := None\<rparr>"
    by (simp add: syncEffect_def split: option.splits)
  then show ?thesis
    using None l sel by (simp add: sync_inv_def sync_selected_def)
next
  case (Some a)
  obtain videoEl where ve: "videoRef t = Some videoEl"
    using v by blast
  have src: "p_source p = ANIMATION" and tr: "truthy (p_currentAudioUrl p)"
    using sel Some by simp_all
  have ea: "audioEls t a \<noteq> None"
    using ex Some by simp
  have vl: "v_listeners videoEl = []"
    using l ve by (simp add: listeners_of_def)
  let ?t = "t\<lparr>syncDeps := Some (p_source p, p_currentAudioUrl p)\<rparr>"
  have ve': "videoRef ?t = Some videoEl" and a': "audioRef ?t = Some a"
    using ve Some by simp_all
  note i = syncEffect_installed [OF ve' vl a' src, of outcome]
  show ?thesis
    unfolding sync_inv_def i using src tr ea i(5) [of a]
    by (simp add: sync_selected_def)
qed

lemma bindingEffect_mounted:
  "videoRef s \<noteq> None \<Longrightarrow> videoRef (bindingEffect p outcome s) \<noteq> None"
  by simp

lemma sync_inv_render:
  assumes "sync_inv s"
  shows "sync_inv (render p videoPlay audioPlay s)"
proof (cases "syncChanged p s")
  case False
  then have "render p videoPlay audioPlay s =
      (if bindingChanged p s
       then bindingEffect p videoPlay
              ((renderDOM p s)\<lparr>bindingDeps := Some (p_stream p, p_source p, p_currentVideoUrl p)\<rparr>)
       else renderDOM p s)"
    by (simp add: render_def effectPhase_def cleanupPhase_def)
  then show ?thesis
    using sync_inv_renderDOM_unchanged [OF assms False]
    by (simp add: sync_inv_bindingEffect)
next
  case True
  let ?t = "cleanupPhase p (renderDOM p s)"
  let ?b = "if bindingChanged p s
       then bindingEffect p videoPlay (?t\<lparr>bindingDeps := Some (p_stream p, p_source p, p_currentVideoUrl p)\<rparr>)
       else ?t"
  note c = cleanupPhase_changed [OF assms True]
  have r: "render p videoPlay audioPlay s =
      syncEffect p audioPlay (?b\<lparr>syncDeps := Some (p_source p, p_currentAudioUrl p)\<rparr>)"
    using True by (simp add: render_def effectPhase_def)
  have ex0: "case audioRef (renderDOM p s) of None \<Rightarrow> True
             | Some a \<Rightarrow> audioEls (renderDOM p s) a \<noteq> None"
    using assms by (intro renderDOM_audio_exists) (simp add: sync_inv_def)
  have 1: "listeners_of ?b = []"
    using c(1) by simp
  have "videoRef (?t\<lparr>bindingDeps := Some (p_stream p, p_source p, p_currentVideoUrl p)\<rparr>) \<noteq> None"
    using c(3) by simp
  then have "videoRef (bindingEffect p videoPlay
      (?t\<lparr>bindingDeps := Some (p_stream p, p_source p, p_currentVideoUrl p)\<rparr>)) \<noteq> None"
    by (rule bindingEffect_mounted)
  then have 2: "videoRef ?b \<noteq> None"
    using c(3) by (cases "bindingChanged p s") simp_all
  have 3: "(audioRef ?b \<noteq> None) = (p_source p = ANIMATION \<and> truthy (p_currentAudioUrl p))"
    using c(4) renderDOM_audioRef [of p s] by simp
  have 4: "case audioRef ?b of None \<Rightarrow> True | Some a \<Rightarrow> audioEls ?b a \<noteq> None"
    using ex0 c(4) c(5) by (simp split: option.splits)
  show ?thesis
    unfolding r using 1 2 3 4 by (rule sync_inv_syncEffect)
qed

lemma foldl_listeners_frames:
  fixes type outcome
  defines "f \<equiv> (\<lambda>s l. if fst l = type then call_listener (snd l) outcome s else s)"
  shows "videoRef (foldl f s ls) = videoRef s"
    and "audioRef (foldl f s ls) = audioRef s"
    and "syncCleanup (foldl f s ls) = syncCleanup s"
    and "syncDeps (foldl f s ls) = syncDeps s"
    and "unhandledRejections (foldl f s ls) = unhandledRejections s"
    and "(audioEls (foldl f s ls) b = None) = (audioEls s b = None)"
  by (induction ls arbitrary: s; simp add: f_def)+

lemma dispatchEvent_frames [simp]:
  "videoRef (dispatchEvent type outcome s) = videoRef s"
  "audioRef (dispatchEvent type outcome s) = audioRef s"
  "syncCleanup (dispatchEvent type outcome s) = syncCleanup s"
  "syncDeps (dispatchEvent type outcome s) = syncDeps s"
  "unhandledRejections (dispatchEvent type outcome s) = unhandledRejections s"
  "(audioEls (dispatchEvent type outcome s) b = None) = (audioEls s b = None)"
  by (simp_all add: dispatchEvent_def foldl_listeners_frames split: option.splits)

lemma sync_inv_dispatchEvent: "sync_inv (dispatchEvent type outcome s) = sync_inv s"
  by (simp add: sync_inv_def listeners_of_def cong: option.case_cong)

lemma sync_inv_step: "sync_inv s \<Longrightarrow> sync_inv (step s act)"
proof (cases act)
  case (Render p v a)
  assume "sync_inv s"
  then show ?thesis using Render by (simp add: sync_inv_render)
next
  case (VideoEvent type outcome)
  assume "sync_inv s"
  then show ?thesis using VideoEvent by (simp add: sync_inv_dispatchEvent)
next
  case (VideoState paused t)
  assume "sync_inv s"
  then show ?thesis
    using VideoState
    by (cases "videoRef s") (simp_all add: sync_inv_def listeners_of_def cong: option.case_cong)
next
  case (AudioState a paused t)
  assume "sync_inv s"
  then show ?thesis
    using AudioState
    by (cases "audioEls s a") (auto simp: sync_inv_def listeners_of_def split: option.splits)
qed

lemma sync_inv_foldl: "sync_inv s \<Longrightarrow> sync_inv (foldl step s actions)"
  by (induction actions arbitrary: s) (simp_all add: sync_inv_step)

lemma sync_inv_run: "sync_inv (run actions)"
  by (simp add: run_def sync_inv_foldl sync_inv_unmounted)

lemma syncEffect_frames [simp]:
  "audioRef (syncEffect p outcome s) = audioRef s"
  "syncDeps (syncEffect p outcome s) = syncDeps s"
  "unhandledRejections (syncEffect p outcome s) = unhandledRejections s"
  by (auto simp: syncEffect_def Let_def split: option.splits simp del: call_listener.simps)

lemma cleanupPhase_frames [simp]:
  "audioRef (cleanupPhase p s) = audioRef s"
  "syncDeps (cleanupPhase p s) = syncDeps s"
  "unhandledRejections (cleanupPhase p s) = unhandledRejections s"
  by (simp_all add: cleanupPhase_def syncCleanup_run_def Let_def split: option.splits)



lemma render_audioRef:
  "(audioRef (render p videoPlay audioPlay s) \<noteq> None) =
     (p_source p = ANIMATION \<and> truthy (p_currentAudioUrl p))"
  using renderDOM_audioRef [of p s] by (simp add: render_def effectPhase_def Let_def)

lemma example_run:
  "run [Render example_animation Started Started] =
     \<lparr>videoRef = Some \<lparr>v_srcObject = None, v_src = ''blob:video-1'', v_muted = False,
          v_paused = False, v_currentTime = 0,
          v_listeners = [(''play'', HandlePlay 0 0), (''pause'', HandlePause 0 0),
                         (''timeupdate'', HandleSeek 0 0)]\<rparr>,
      audioRef = Some 0,
      audioEls = (\<lambda>a. None)(0 \<mapsto> \<lparr>a_src = ''blob:audio-1'', a_paused = False, a_currentTime = 0\<rparr>),
      nextAudio = 1, effectRuns = 1,
      bindingDeps = Some (None, ANIMATION, Some ''blob:video-1''),
      syncDeps = Some (ANIMATION, Some ''blob:audio-1''),
      syncCleanup = Some (0, 0), console = [], unhandledRejections = []\<rparr>"
  by (simp add: run_def render_def renderDOM_def cleanupPhase_def effectPhase_def bindingEffect_def
      syncEffect_def unmounted_def example_animation_def syncChanged_def bindingChanged_def
      truthy_def or_empty_def video_play_catch_eq audio_play_catch_eq addEventListener_def Let_def)




lemma sync_loop_state:
  assumes "sync_inv s" "syncCleanup s = Some (i, a)"
  shows "\<exists>videoEl audioEl. videoRef s = Some videoEl \<and> v_listeners videoEl = registrations (i, a)
     \<and> audioEls s a = Some audioEl"
proof -
  have l: "listeners_of s = registrations (i, a)" and r: "audioRef s = Some a"
    using assms by (simp_all add: sync_inv_def)
  then have "audioEls s a \<noteq> None"
    using assms(1) by (simp add: sync_inv_def)
  moreover have "videoRef s \<noteq> None"
    using l by (cases "videoRef s") (simp_all add: listeners_of_def registrations_def)
  ultimately show ?thesis
    using l by (auto simp: listeners_of_def)
qed

lemma dispatch_registrations:
  assumes "videoRef s = Some videoEl" "v_listeners videoEl = registrations (i, a)"
  shows "dispatchEvent ''timeupdate'' outcome s = call_listener (HandleSeek i a) outcome s"
    and "dispatchEvent ''play'' outcome s = call_listener (HandlePlay i a) outcome s"
    and "dispatchEvent ''pause'' outcome s = call_listener (HandlePause i a) outcome s"
  using assms by (simp_all add: dispatchEvent_def registrations_def del: call_listener.simps)

lemma example_drift:
  "run [Render example_animation Started Started, VideoState False (3), AudioState 0 False (19 / 8)] =
     \<lparr>videoRef = Some \<lparr>v_srcObject = None, v_src = ''blob:video-1'', v_muted = False,
          v_paused = False, v_currentTime = 3,
          v_listeners = [(''play'', HandlePlay 0 0), (''pause'', HandlePause 0 0),
                         (''timeupdate'', HandleSeek 0 0)]\<rparr>,
      audioRef = Some 0,
      audioEls = (\<lambda>a. None)(0 \<mapsto> \<lparr>a_src = ''blob:audio-1'', a_paused = False, a_currentTime = 19 / 8\<rparr>),
      nextAudio = 1, effectRuns = 1,
      bindingDeps = Some (None, ANIMATION, Some ''blob:video-1''),
      syncDeps = Some (ANIMATION, Some ''blob:audio-1''),
      syncCleanup = Some (0, 0), console = [], unhandledRejections = []\<rparr>"
proof -
  have "run [Render example_animation Started Started, VideoState False (3), AudioState 0 False (19 / 8)]
      = step (step (run [Render example_animation Started Started]) (VideoState False (3)))
          (AudioState 0 False (19 / 8))"
    by (simp add: run_def)
  then show ?thesis
    unfolding example_run by simp
qed

lemma example_near:
  "run [Render example_animation Started Started, VideoState False (4), AudioState 0 False (29 / 8)] =
     \<lparr>videoRef = Some \<lparr>v_srcObject = None, v_src = ''blob:video-1'', v_muted = False,
          v_paused = False, v_currentTime = 4,
          v_listeners = [(''play'', HandlePlay 0 0), (''pause'', HandlePause 0 0),
                         (''timeupdate'', HandleSeek 0 0)]\<rparr>,
      audioRef = Some 0,
      audioEls = (\<lambda>a. None)(0 \<mapsto> \<lparr>a_src = ''blob:audio-1'', a_paused = False, a_currentTime = 29 / 8\<rparr>),
      nextAudio = 1, effectRuns = 1,
      bindingDeps = Some (None, ANIMATION, Some ''blob:video-1''),
      syncDeps = Some (ANIMATION, Some ''blob:audio-1''),
      syncCleanup = Some (0, 0), console = [], unhandledRejections = []\<rparr>"
proof -
  have "run [Render example_animation Started Started, VideoState False (4), AudioState 0 False (29 / 8)]
      = step (step (run [Render example_animation Started Started]) (VideoState False (4)))
          (AudioState 0 False (29 / 8))"
    by (simp add: run_def)
  then show ?thesis
    unfolding example_run by simp
qed

lemma example_tie:
  "run [Render example_animation Started Started, VideoState False (3 / 4), AudioState 0 False (4503599627370495 / 18014398509481984)] =
     \<lparr>videoRef = Some \<lparr>v_srcObject = None, v_src = ''blob:video-1'', v_muted = False,
          v_paused = False, v_currentTime = 3 / 4,
          v_listeners = [(''play'', HandlePlay 0 0), (''pause'', HandlePause 0 0),
                         (''timeupdate'', HandleSeek 0 0)]\<rparr>,
      audioRef = Some 0,
      audioEls = (\<lambda>a. None)(0 \<mapsto> \<lparr>a_src = ''blob:audio-1'', a_paused = False, a_currentTime = 4503599627370495 / 18014398509481984\<rparr>),
      nextAudio = 1, effectRuns = 1,
      bindingDeps = Some (None, ANIMATION, Some ''blob:video-1''),
      syncDeps = Some (ANIMATION, Some ''blob:audio-1''),
      syncCleanup = Some (0, 0), console = [], unhandledRejections = []\<rparr>"
proof -
  have "run [Render example_animation Started Started, VideoState False (3 / 4), AudioState 0 False (4503599627370495 / 18014398509481984)]
      = step (step (run [Render example_animation Started Started]) (VideoState False (3 / 4)))
          (AudioState 0 False (4503599627370495 / 18014398509481984))"
    by (simp add: run_def)
  then show ?thesis
    unfolding example_run by simp
qed

lemma timeupdate_effect:
  assumes "videoRef s = Some videoEl" "v_listeners videoEl = registrations (i, a)"
    "audioEls s a = Some audioEl"
  shows "dispatchEvent ''timeupdate'' outcome s =
     (if lessThan_num (Num (1 / 2))
           (Math_abs (minus_binary64 (a_currentTime audioEl) (v_currentTime videoEl)))
      then s\<lparr>audioEls := (audioEls s)(a \<mapsto> audioEl\<lparr>a_currentTime := v_currentTime videoEl\<rparr>)\<rparr>
      else s)"
  unfolding dispatch_registrations(1) [OF assms(1,2)]
  using assms(1,3) by (simp add: audio_set_currentTime_def)




lemma example_mounted:
  "videoRef (renderDOM p unmounted) =
     Some \<lparr>v_srcObject = None, v_src = [], v_muted = False, v_paused = True, v_currentTime = 0,
           v_listeners = []\<rparr>"
  by (simp add: renderDOM_def unmounted_def Let_def)

section \<open>The preview controller: claims\<close>

text \<open>
  C2 (as amended). The binding effect sets \<open>muted\<close> to \<open>source !== ANIMATION\<close> (and to
  \<open>true\<close> on the webcam path): a webcam binding and a static-media binding leave the video
  element muted, a synced-animation binding leaves it unmuted.
\<close>

theorem bindingEffect_muted:
  assumes "videoRef s = Some videoEl0"
  shows "\<exists>videoEl. videoRef (bindingEffect p outcome s) = Some videoEl
     \<and> v_muted videoEl = (case p_source p of WEBCAM \<Rightarrow> True | VIDEO_LIBRARY \<Rightarrow> True | ANIMATION \<Rightarrow> False)"
  using assms
  by (cases "p_source p")
    (auto simp: bindingEffect_def video_play_catch_eq Let_def split: play_outcome.splits)

text \<open>
  C2, witness: a freshly mounted video bound to the library video is muted, bound to the
  animation it is not.
\<close>

theorem bindingEffect_muted_witness:
  "(\<exists>videoEl. videoRef (bindingEffect example_video Started (renderDOM example_video unmounted))
        = Some videoEl \<and> v_muted videoEl)
   \<and> (\<exists>videoEl. videoRef (bindingEffect example_animation Started (renderDOM example_animation unmounted))
        = Some videoEl \<and> \<not> v_muted videoEl)"
  using bindingEffect_muted [OF example_mounted, of example_video Started example_video]
    bindingEffect_muted [OF example_mounted, of example_animation Started example_animation]
  by (simp add: example_video_def example_animation_def)

text \<open>
  C2, counterexample to "static media unmuted, animation video muted": after the binding
  effect the library video is muted and the animation's video is unmuted.
\<close>

theorem static_media_muted_counterexample:
  "map_option v_muted
      (videoRef (bindingEffect example_video Started (renderDOM example_video unmounted))) = Some True
   \<and> map_option v_muted
      (videoRef (bindingEffect example_animation Started (renderDOM example_animation unmounted)))
        = Some False"
  by (simp add: bindingEffect_def video_play_catch_eq example_mounted example_video_def
      example_animation_def truthy_def Let_def)

text \<open>
  C6 (as amended). In every reachable state in which the sync loop is installed (a cleanup
  is pending, which happens exactly while the last render selected the animation with an
  audio URL), a \<open>timeupdate\<close> of the video sets the audio position to the video position
  when the binary64 difference of the two positions exceeds one half in absolute value,
  and changes nothing otherwise. The rounded difference exceeds one half exactly when the
  exact difference exceeds \<open>1/2 + 2\<^sup>-\<^sup>5\<^sup>4\<close>: positions that differ by at most half a second
  are never corrected, and neither are those whose difference rounds down to one half. A
  \<open>play\<close> event starts the audio and a \<open>pause\<close> event pauses it.
\<close>

theorem sync_loop_events:
  assumes "syncCleanup (run actions) = Some (i, a)"
  shows "\<exists>videoEl audioEl.
     videoRef (run actions) = Some videoEl \<and> audioEls (run actions) a = Some audioEl
     \<and> sync_selected (syncDeps (run actions))
     \<and> dispatchEvent ''timeupdate'' outcome (run actions) =
         (if lessThan_num (Num (1 / 2))
               (Math_abs (minus_binary64 (a_currentTime audioEl) (v_currentTime videoEl)))
          then (run actions)\<lparr>audioEls := (audioEls (run actions))
                  (a \<mapsto> audioEl\<lparr>a_currentTime := v_currentTime videoEl\<rparr>)\<rparr>
          else run actions)
     \<and> lessThan_num (Num (1 / 2))
           (Math_abs (minus_binary64 (a_currentTime audioEl) (v_currentTime videoEl)))
         = (1 / 2 + 1 / 2 ^ 54 < \<bar>a_currentTime audioEl - v_currentTime videoEl\<bar>)
     \<and> dispatchEvent ''play'' Started (run actions) =
         (run actions)\<lparr>audioEls := (audioEls (run actions))(a \<mapsto> audioEl\<lparr>a_paused := False\<rparr>)\<rparr>
     \<and> dispatchEvent ''pause'' outcome (run actions) =
         (run actions)\<lparr>audioEls := (audioEls (run actions))(a \<mapsto> audioEl\<lparr>a_paused := True\<rparr>)\<rparr>"
proof -
  obtain videoEl audioEl where v: "videoRef (run actions) = Some videoEl"
    and l: "v_listeners videoEl = registrations (i, a)"
    and e: "audioEls (run actions) a = Some audioEl"
    using sync_loop_state [OF sync_inv_run assms] by blast
  have sel: "sync_selected (syncDeps (run actions))"
    using sync_inv_run [of actions] assms by (simp add: sync_inv_def)
  note d = dispatch_registrations(2,3) [OF v l]
  have p: "dispatchEvent ''play'' Started (run actions) =
         (run actions)\<lparr>audioEls := (audioEls (run actions))(a \<mapsto> audioEl\<lparr>a_paused := False\<rparr>)\<rparr>"
    unfolding d using e by (simp add: audio_play_catch_eq)
  have q: "dispatchEvent ''pause'' outcome (run actions) =
         (run actions)\<lparr>audioEls := (audioEls (run actions))(a \<mapsto> audioEl\<lparr>a_paused := True\<rparr>)\<rparr>"
    unfolding d using e by (simp add: audio_pause_def)
  show ?thesis
    using v e sel timeupdate_effect [OF v l e, of outcome] p q
      binary64_difference_exceeds_half [of "a_currentTime audioEl" "v_currentTime videoEl"]
    by (intro exI [of _ videoEl] exI [of _ audioEl] conjI)
qed

text \<open>
  C6, witness: video at 3 s and audio at 2.375 s (0.625 s apart) gives audio at 3 s; video
  at 4 s and audio at 3.625 s (0.375 s apart) changes nothing.
\<close>

theorem sync_loop_events_witness:
  "audioEls (dispatchEvent ''timeupdate'' Started
      (run [Render example_animation Started Started, VideoState False 3, AudioState 0 False (19 / 8)])) 0
     = Some \<lparr>a_src = ''blob:audio-1'', a_paused = False, a_currentTime = 3\<rparr>
   \<and> dispatchEvent ''timeupdate'' Started
      (run [Render example_animation Started Started, VideoState False 4, AudioState 0 False (29 / 8)])
     = run [Render example_animation Started Started, VideoState False 4, AudioState 0 False (29 / 8)]"
proof -
  let ?far = "run [Render example_animation Started Started, VideoState False 3, AudioState 0 False (19 / 8)]"
  let ?near = "run [Render example_animation Started Started, VideoState False 4, AudioState 0 False (29 / 8)]"
  have cf: "syncCleanup ?far = Some (0, 0)" and cn: "syncCleanup ?near = Some (0, 0)"
    by (simp_all add: example_drift example_near)
  have "audioEls (dispatchEvent ''timeupdate'' Started ?far) 0
     = Some \<lparr>a_src = ''blob:audio-1'', a_paused = False, a_currentTime = 3\<rparr>"
    using sync_loop_events [OF cf, of Started] by (auto simp: example_drift)
  moreover have "dispatchEvent ''timeupdate'' Started ?near = ?near"
    using sync_loop_events [OF cn, of Started] by (auto simp: example_near)
  ultimately show ?thesis by simp
qed

text \<open>
  C6, counterexample to "a difference of more than 0.5 s is corrected": the video is at
  0.75 s and the audio at \<open>0.25 - 2\<^sup>-\<^sup>5\<^sup>4\<close> s, both binary64 values. Their difference,
  \<open>0.5 + 2\<^sup>-\<^sup>5\<^sup>4\<close>, exceeds one half; the binary64 subtraction rounds it to one half, and
  the \<open>timeupdate\<close> leaves the audio where it was.
\<close>

theorem sync_loop_rounding_counterexample:
  "round_binary64 (3 / 4) = Num (3 / 4)
   \<and> round_binary64 (4503599627370495 / 18014398509481984) = Num (4503599627370495 / 18014398509481984)
   \<and> map_option v_currentTime (videoRef
        (run [Render example_animation Started Started, VideoState False (3 / 4),
              AudioState 0 False (4503599627370495 / 18014398509481984)])) = Some (3 / 4)
   \<and> map_option a_currentTime (audioEls
        (run [Render example_animation Started Started, VideoState False (3 / 4),
              AudioState 0 False (4503599627370495 / 18014398509481984)]) 0)
        = Some (4503599627370495 / 18014398509481984)
   \<and> 1 / 2 < \<bar>4503599627370495 / 18014398509481984 - 3 / (4::rat)\<bar>
   \<and> listeners_of
        (run [Render example_animation Started Started, VideoState False (3 / 4),
              AudioState 0 False (4503599627370495 / 18014398509481984)]) = registrations (0, 0)
   \<and> dispatchEvent ''timeupdate'' Started
        (run [Render example_animation Started Started, VideoState False (3 / 4),
              AudioState 0 False (4503599627370495 / 18014398509481984)])
      = run [Render example_animation Started Started, VideoState False (3 / 4),
              AudioState 0 False (4503599627370495 / 18014398509481984)]"
proof -
  let ?s = "run [Render example_animation Started Started, VideoState False (3 / 4),
              AudioState 0 False (4503599627370495 / 18014398509481984)]"
  have v: "videoRef ?s = Some \<lparr>v_srcObject = None, v_src = ''blob:video-1'', v_muted = False,
          v_paused = False, v_currentTime = 3 / 4,
          v_listeners = [(''play'', HandlePlay 0 0), (''pause'', HandlePause 0 0),
                         (''timeupdate'', HandleSeek 0 0)]\<rparr>"
    by (simp add: example_tie)
  have e: "audioEls ?s 0 = Some \<lparr>a_src = ''blob:audio-1'', a_paused = False,
          a_currentTime = 4503599627370495 / 18014398509481984\<rparr>"
    by (simp add: example_tie)
  have l: "v_listeners \<lparr>v_srcObject = None, v_src = ''blob:video-1'', v_muted = False,
          v_paused = False, v_currentTime = 3 / 4,
          v_listeners = [(''play'', HandlePlay 0 0), (''pause'', HandlePause 0 0),
                         (''timeupdate'', HandleSeek 0 0)]\<rparr> = registrations (0, 0)"
    by (simp add: registrations_def)
  have t: "dispatchEvent ''timeupdate'' Started ?s = ?s"
    unfolding timeupdate_effect [OF v l e] binary64_difference_exceeds_half by simp
  have r1: "round_binary64 (3 / 4) = Num (3 / 4)"
    by (rule round_binary64_exact [of _ 6755399441055744 "- 1"]) (simp_all add: power_int_minus)
  have r2: "round_binary64 (4503599627370495 / 18014398509481984)
      = Num (4503599627370495 / 18014398509481984)"
    by (rule round_binary64_exact [of _ 9007199254740990 "- 3"]) (simp_all add: power_int_minus)
  have d: "1 / 2 < \<bar>4503599627370495 / 18014398509481984 - 3 / (4::rat)\<bar>"
    by simp
  show ?thesis
    using v e l t r1 r2 d by (simp add: listeners_of_def)
qed





text \<open>
  C10. \<open>handleSelectVideo\<close> sets the video URL, sets the audio URL to \<open>null\<close> and selects
  the video library, also right after an animation was selected; the render that follows
  has no audio element behind \<open>audioRef\<close>.
\<close>

theorem handleSelectVideo_clears_audio:
  "currentVideoUrl (handleSelectVideo video now date s) = Some (video_url video)
   \<and> currentAudioUrl (handleSelectVideo video now date s) = None
   \<and> streamSource (handleSelectVideo video now date s) = VIDEO_LIBRARY
   \<and> currentAudioUrl (handleSelectVideo video now date (handleSelectAnimation anim now' date' s)) = None
   \<and> audioRef (render (preview_props stream (handleSelectVideo video now date s)) videoPlay audioPlay ps)
       = None"
proof -
  have 1: "currentVideoUrl (handleSelectVideo video now date s) = Some (video_url video)"
    and 2: "currentAudioUrl (handleSelectVideo video now date s) = None"
    and 3: "streamSource (handleSelectVideo video now date s) = VIDEO_LIBRARY" for s
    by (simp_all add: handleSelectVideo_def addHistoryItem_def Let_def)
  have "p_source (preview_props stream (handleSelectVideo video now date s)) \<noteq> ANIMATION"
    using 3 by (simp add: preview_props_def)
  then have 5: "audioRef (render (preview_props stream (handleSelectVideo video now date s)) videoPlay audioPlay ps)
       = None"
    using render_audioRef [of "preview_props stream (handleSelectVideo video now date s)" videoPlay audioPlay ps]
    by simp
  show ?thesis
    using 1 2 3 5 by simp
qed

end
